theory Spec2Isabelle
  imports Complex_Main "HOL-Library.Word" "HOL-Library.Sublist"
begin

section \<open>Strings of the client\<close>

text \<open>
  A JavaScript string is a sequence of code units; the model keeps the code units below
  256, one \<^typ>\<open>char\<close> each. \<open>String.prototype.trim\<close> and the class \<open>\s\<close> remove
  the same set (WhiteSpace and LineTerminator); below 256 these are TAB, LF, VT, FF, CR,
  SPACE and NBSP. The class \<open>\d\<close> is the ten ASCII digits.
\<close>

definition isWhiteSpace :: "char \<Rightarrow> bool" where
  "isWhiteSpace c = ((of_char c :: nat) \<in> set [9, 10, 11, 12, 13, 32, 160])"

definition isDigit :: "char \<Rightarrow> bool" where
  "isDigit c = (48 \<le> (of_char c :: nat) \<and> (of_char c :: nat) \<le> 57)"

definition digitValue :: "char \<Rightarrow> nat" where
  "digitValue c = of_char c - 48"

definition trim :: "string \<Rightarrow> string" where
  "trim s = rev (dropWhile isWhiteSpace (rev (dropWhile isWhiteSpace s)))"

text \<open>\<open>s.includes(p)\<close>: \<open>p\<close> occurs in \<open>s\<close> as a contiguous block.\<close>

fun includesStr :: "string \<Rightarrow> string \<Rightarrow> bool" where
  "includesStr [] p = (p = [])"
| "includesStr (c # s) p = (prefix p (c # s) \<or> includesStr s p)"

text \<open>\<open>s.split(sep)\<close> for a separator of one code unit; the result is never empty.\<close>

fun split :: "char \<Rightarrow> string \<Rightarrow> string list" where
  "split sep [] = [[]]"
| "split sep (c # s) =
     (if c = sep then [] # split sep s
      else (case split sep s of
              [] \<Rightarrow> [[c]]
            | piece # pieces \<Rightarrow> (c # piece) # pieces))"

definition padEnd :: "string \<Rightarrow> nat \<Rightarrow> char \<Rightarrow> string" where
  "padEnd s n c = s @ replicate (n - length s) c"

definition slice0 :: "string \<Rightarrow> nat \<Rightarrow> string" where
  "slice0 s n = take n s"

fun join :: "string \<Rightarrow> string list \<Rightarrow> string" where
  "join sep [] = []"
| "join sep [s] = s"
| "join sep (s # t # ts) = s @ sep @ join sep (t # ts)"

subsection \<open>Regular expressions\<close>

text \<open>
  The patterns of the client are anchored at both ends and built from \<open>\d\<close>, a literal
  character, sequence, \<open>?\<close> and \<open>+\<close>. \<open>test\<close> decides membership by derivatives;
  \<open>Never\<close>, \<open>Empty\<close>, \<open>Either\<close> and \<open>Many\<close> are what the derivatives need.
\<close>

datatype regex =
    Never
  | Empty
  | DigitClass
  | Lit char
  | Seq regex regex
  | Either regex regex
  | Many regex

definition OneOrMore :: "regex \<Rightarrow> regex" where
  "OneOrMore r = Seq r (Many r)"

definition Optional :: "regex \<Rightarrow> regex" where
  "Optional r = Either r Empty"

fun acceptsEmpty :: "regex \<Rightarrow> bool" where
  "acceptsEmpty Never = False"
| "acceptsEmpty Empty = True"
| "acceptsEmpty DigitClass = False"
| "acceptsEmpty (Lit c) = False"
| "acceptsEmpty (Seq r q) = (acceptsEmpty r \<and> acceptsEmpty q)"
| "acceptsEmpty (Either r q) = (acceptsEmpty r \<or> acceptsEmpty q)"
| "acceptsEmpty (Many r) = True"

fun after :: "char \<Rightarrow> regex \<Rightarrow> regex" where
  "after c Never = Never"
| "after c Empty = Never"
| "after c DigitClass = (if isDigit c then Empty else Never)"
| "after c (Lit d) = (if c = d then Empty else Never)"
| "after c (Seq r q) =
     (if acceptsEmpty r then Either (Seq (after c r) q) (after c q)
      else Seq (after c r) q)"
| "after c (Either r q) = Either (after c r) (after c q)"
| "after c (Many r) = Seq (after c r) (Many r)"

fun test :: "regex \<Rightarrow> string \<Rightarrow> bool" where
  "test r [] = acceptsEmpty r"
| "test r (c # s) = test (after c r) s"

text \<open>\<open>/^\d+(\.\d+)?$/\<close> and \<open>/^\d+$/\<close>.\<close>

definition decimalPattern :: regex where
  "decimalPattern =
     Seq (OneOrMore DigitClass) (Optional (Seq (Lit CHR ''.'') (OneOrMore DigitClass)))"

definition integerPattern :: regex where
  "integerPattern = OneOrMore DigitClass"

text \<open>
  The words a pattern stands for, stated without reference to the matcher:
  the yardstick for \<open>test\<close>.
\<close>

inductive_set repetitions :: "string set \<Rightarrow> string set" for A :: "string set" where
  none: "[] \<in> repetitions A"
| more: "u \<in> A \<Longrightarrow> v \<in> repetitions A \<Longrightarrow> u @ v \<in> repetitions A"

fun lang :: "regex \<Rightarrow> string set" where
  "lang Never = {}"
| "lang Empty = {[]}"
| "lang DigitClass = {[c] | c. isDigit c}"
| "lang (Lit c) = {[c]}"
| "lang (Seq r q) = {u @ v | u v. u \<in> lang r \<and> v \<in> lang q}"
| "lang (Either r q) = lang r \<union> lang q"
| "lang (Many r) = repetitions (lang r)"

section \<open>Thrown values\<close>

text \<open>
  What a \<open>throw\<close> of the client or a rejected promise of a collaborator carries:
  \<^item> \<open>Error m\<close>: \<open>new Error(m)\<close>, with no \<open>logs\<close> property;
  \<^item> \<open>SendTransactionError m g\<close>: the class of that name (web3.js) with message \<open>m\<close>;
    \<open>g\<close> is what its \<open>getLogs(connection)\<close> settles to: \<open>Inr ls\<close> when it resolves to the
    logs \<open>ls\<close>, \<open>Inl r\<close> when it rejects with \<open>r\<close> (the error holds no logs and none are
    found for the transaction, or the lookup itself fails);
  \<^item> \<open>ErrorWithLogs m l\<close>: another instance of \<open>Error\<close> that has a \<open>logs\<close> property,
    \<open>None\<close> when the property holds \<open>undefined\<close> or \<open>null\<close>;
  \<^item> \<open>NotAnError l\<close>: a thrown value that is not an instance of \<open>Error\<close>; \<open>l\<close> is its
    \<open>logs\<close> property when it is an object that has one.
\<close>

datatype error =
    Error string
  | SendTransactionError string "error + string list"
  | ErrorWithLogs string "string list option"
  | NotAnError "string list option"

section \<open>Amount parsing\<close>

text \<open>
  \<open>BigInt(s)\<close> on a string of decimal digits, read most significant digit first;
  the empty string is \<open>0n\<close>. No other string reaches \<open>BigInt\<close> after the format test;
  the model sends them to \<open>None\<close> (a SyntaxError in the source).
\<close>

definition digitsValue :: "string \<Rightarrow> nat" where
  "digitsValue s = foldl (\<lambda>acc c. 10 * acc + digitValue c) 0 s"

definition BigInt :: "string \<Rightarrow> nat option" where
  "BigInt s = (if list_all isDigit s then Some (digitsValue s) else None)"

text \<open>\<open>x || '0'\<close> on strings: the empty string is falsy.\<close>

definition orZero :: "string \<Rightarrow> string" where
  "orZero s = (if s = [] then ''0'' else s)"

text \<open>
  \<open>const [whole, fraction = ''] = normalized.split('.')\<close>: the first piece, and the
  second piece or the default.
\<close>

definition wholeAndFraction :: "string list \<Rightarrow> string \<times> string" where
  "wholeAndFraction pieces =
     (case pieces of
        [] \<Rightarrow> ([], [])
      | [w] \<Rightarrow> (w, [])
      | w # f # _ \<Rightarrow> (w, f))"

definition parseTokenAmount :: "string \<Rightarrow> nat \<Rightarrow> error + nat" where
  "parseTokenAmount amount decimals =
     (let normalized = trim amount in
      if normalized = [] then Inr 0
      else if \<not> test decimalPattern normalized then Inl (Error ''Invalid amount format'')
      else
        (let (whole, fraction) = wholeAndFraction (split CHR ''.'' normalized);
             paddedFraction = slice0 (padEnd fraction decimals CHR ''0'') decimals;
             base = 10 ^ decimals
         in case (BigInt (orZero whole), BigInt (orZero paddedFraction)) of
              (Some w, Some f) \<Rightarrow> Inr (w * base + f)
            | _ \<Rightarrow> Inl (Error ''SyntaxError'')))"

definition parseIntegerAmount :: "string \<Rightarrow> error + nat" where
  "parseIntegerAmount amount =
     (let normalized = trim amount in
      if \<not> test integerPattern normalized then Inl (Error ''Invalid integer amount'')
      else Inr (digitsValue normalized))"

text \<open>
  The reading of a digit string the specification has in mind, by position, and the
  rational number a decimal text denotes: the digits before the point, plus the digits
  after it over the matching power of ten.
\<close>

definition decimalNumber :: "string \<Rightarrow> nat" where
  "decimalNumber s = (\<Sum>i<length s. digitValue (s ! i) * 10 ^ (length s - Suc i))"

definition rationalValue :: "string \<Rightarrow> rat" where
  "rationalValue s =
     (let w = takeWhile (\<lambda>c. c \<noteq> CHR ''.'') s;
          f = drop 1 (dropWhile (\<lambda>c. c \<noteq> CHR ''.'') s)
      in of_nat (decimalNumber w) + of_nat (decimalNumber f) / 10 ^ length f)"

section \<open>Keys, bytes and the external libraries\<close>

type_synonym byte = "8 word"

text \<open>A \<open>PublicKey\<close> is its 32 bytes; \<open>toBuffer\<close> returns them.\<close>

datatype pubkey = PublicKey (toBuffer: "byte list")

text \<open>
  What the client takes from its dependencies and the repository does not define:
  the Keccak-256 digest (js-sha3), program-address derivation, the curve test and
  base58 decoding (web3.js), and the program identifiers (spl-token, web3.js).
\<close>

record library =
  keccak_256 :: "byte list \<Rightarrow> byte list"
  findProgramAddressSync :: "byte list list \<Rightarrow> pubkey \<Rightarrow> pubkey \<times> nat"
  isOnCurve :: "pubkey \<Rightarrow> bool"
  publicKeyOfBase58 :: "string \<Rightarrow> pubkey"
  TOKEN_PROGRAM_ID :: pubkey
  TOKEN_2022_PROGRAM_ID :: pubkey
  ASSOCIATED_TOKEN_PROGRAM_ID :: pubkey
  SystemProgram_programId :: pubkey

text \<open>\<open>Buffer.from(text)\<close> on ASCII text: one byte per character.\<close>

definition Buffer_from :: "string \<Rightarrow> byte list" where
  "Buffer_from s = map of_char s"

definition MORPHO_PROGRAM_ID :: "library \<Rightarrow> pubkey" where
  "MORPHO_PROGRAM_ID L = publicKeyOfBase58 L ''9qYe29CskmZ1mcuLLFcQXovfbqXBqLsXpg4y7Rfk9NsE''"

definition PROGRAM_SEED_PREFIX :: "byte list" where
  "PROGRAM_SEED_PREFIX = Buffer_from ''morpho_v1''"

definition PROTOCOL_STATE_SEED :: "byte list" where
  "PROTOCOL_STATE_SEED = Buffer_from ''morpho_protocol''"

definition POSITION_SEED :: "byte list" where
  "POSITION_SEED = Buffer_from ''morpho_position''"

definition LOAN_VAULT_SEED :: "byte list" where
  "LOAN_VAULT_SEED = Buffer_from ''morpho_loan_vault''"

definition getProtocolStatePDA :: "library \<Rightarrow> pubkey \<times> nat" where
  "getProtocolStatePDA L =
     findProgramAddressSync L [PROGRAM_SEED_PREFIX, PROTOCOL_STATE_SEED] (MORPHO_PROGRAM_ID L)"

definition getPositionPDA :: "library \<Rightarrow> byte list \<Rightarrow> pubkey \<Rightarrow> pubkey \<times> nat" where
  "getPositionPDA L marketId owner =
     findProgramAddressSync L
       [PROGRAM_SEED_PREFIX, POSITION_SEED, marketId, toBuffer owner] (MORPHO_PROGRAM_ID L)"

definition getLoanVaultPDA :: "library \<Rightarrow> byte list \<Rightarrow> pubkey \<times> nat" where
  "getLoanVaultPDA L marketId =
     findProgramAddressSync L [PROGRAM_SEED_PREFIX, LOAN_VAULT_SEED, marketId] (MORPHO_PROGRAM_ID L)"

section \<open>Market identifier\<close>

text \<open>
  bn.js. \<open>new BN(number)\<close> keeps the sign apart from the magnitude and asserts that the
  magnitude is below \<open>0x20000000000000\<close>. \<open>toArrayLike(Buffer, 'le', length)\<close> writes
  the magnitude, least significant byte first, into \<open>length\<close> bytes and asserts that it
  fits; the sign is not written.
\<close>

record BN =
  negative :: bool
  magnitude :: nat

definition BN_of_number :: "int \<Rightarrow> error + BN" where
  "BN_of_number number =
     (let neg = number < 0;
          n = (if neg then - number else number)
      in if n < 0x20000000000000
         then Inr \<lparr>negative = neg, magnitude = nat n\<rparr>
         else Inl (Error ''Assertion failed''))"

fun bytesLE :: "nat \<Rightarrow> byte list" where
  "bytesLE n = (if n = 0 then [] else word_of_nat (n mod 256) # bytesLE (n div 256))"

declare bytesLE.simps [simp del]

definition byteLength :: "BN \<Rightarrow> nat" where
  "byteLength b = length (bytesLE (magnitude b))"

definition toArrayLike_le :: "BN \<Rightarrow> nat \<Rightarrow> error + byte list" where
  "toArrayLike_le b len =
     (let reqLength = (if len = 0 then max 1 (byteLength b) else len)
      in if \<not> byteLength b \<le> reqLength
         then Inl (Error ''byte array longer than desired length'')
         else Inr (bytesLE (magnitude b) @ replicate (reqLength - byteLength b) 0))"

text \<open>
  js-sha3's \<open>keccak256\<close> returns the digest as lower-case hexadecimal text, and
  \<open>Buffer.from(text, 'hex')\<close> reads bytes back, two digits at a time, up to the first
  pair that is not hexadecimal.
\<close>

definition hexDigit :: "nat \<Rightarrow> char" where
  "hexDigit n = ''0123456789abcdef'' ! n"

definition hexValue :: "char \<Rightarrow> nat option" where
  "hexValue c =
     (let n = (of_char c :: nat)
      in if 48 \<le> n \<and> n \<le> 57 then Some (n - 48)
         else if 97 \<le> n \<and> n \<le> 102 then Some (n - 87)
         else if 65 \<le> n \<and> n \<le> 70 then Some (n - 55)
         else None)"

definition toHex :: "byte list \<Rightarrow> string" where
  "toHex bs = concat (map (\<lambda>b. [hexDigit (unat b div 16), hexDigit (unat b mod 16)]) bs)"

fun Buffer_from_hex :: "string \<Rightarrow> byte list" where
  "Buffer_from_hex (a # b # rest) =
     (case (hexValue a, hexValue b) of
        (Some hi, Some lo) \<Rightarrow> word_of_nat (16 * hi + lo) # Buffer_from_hex rest
      | _ \<Rightarrow> [])"
| "Buffer_from_hex _ = []"

definition keccak256 :: "library \<Rightarrow> byte list \<Rightarrow> string" where
  "keccak256 L data = toHex (keccak_256 L data)"

definition calculateMarketId ::
  "library \<Rightarrow> pubkey \<Rightarrow> pubkey \<Rightarrow> pubkey \<Rightarrow> pubkey \<Rightarrow> int \<Rightarrow> error + byte list" where
  "calculateMarketId L collateralMint loanMint oracle irm lltv =
     (case BN_of_number lltv of
        Inl e \<Rightarrow> Inl e
      | Inr bn \<Rightarrow>
          (case toArrayLike_le bn 8 of
             Inl e \<Rightarrow> Inl e
           | Inr lltvBuffer \<Rightarrow>
               (let data = concat [toBuffer collateralMint, toBuffer loanMint,
                                   toBuffer oracle, toBuffer irm, lltvBuffer]
                in Inr (Buffer_from_hex (keccak256 L data)))))"

text \<open>
  The encoding the specification names: the \<open>k\<close> bytes of \<open>n\<close>, least significant first.
\<close>

definition littleEndian :: "nat \<Rightarrow> nat \<Rightarrow> byte list" where
  "littleEndian k n = map (\<lambda>i. word_of_nat (n div 256 ^ i)) [0..<k]"

section \<open>Accounts, instructions and transactions\<close>

text \<open>
  \<open>connection.getAccountInfo(address)\<close> is modelled by what it resolves to on the chain
  state of the moment: the account, or \<open>None\<close> for \<open>null\<close>. Only the owner of an account
  is read by the client.
\<close>

record account_info =
  info_owner :: pubkey
  info_data :: "byte list"

type_synonym connection = "pubkey \<Rightarrow> account_info option"

text \<open>
  An instruction is either the associated-token-account creation of spl-token, with its
  arguments in the order of the call, or a method of the lending program built through
  its client: the method name, the arguments and the named accounts.
\<close>

datatype argument = Bytes "byte list" | Amount nat

datatype instruction =
    CreateAssociatedTokenAccount pubkey pubkey pubkey pubkey pubkey pubkey
  | MethodCall string "argument list" "(string \<times> pubkey) list"

record transaction =
  tx_instructions :: "instruction list"
  tx_feePayer :: "pubkey option"

section \<open>Token account resolution\<close>

definition getTokenProgramId :: "library \<Rightarrow> connection \<Rightarrow> pubkey \<Rightarrow> error + pubkey" where
  "getTokenProgramId L connection mint =
     (case connection mint of
        None \<Rightarrow> Inl (Error ''Mint account not found'')
      | Some info \<Rightarrow>
          if info_owner info = TOKEN_2022_PROGRAM_ID L then Inr (TOKEN_2022_PROGRAM_ID L)
          else Inr (TOKEN_PROGRAM_ID L))"

text \<open>
  spl-token's \<open>getAssociatedTokenAddressSync\<close>: unless off-curve owners are allowed, an
  owner that is not on the curve is refused with a \<open>TokenOwnerOffCurveError\<close>, an error
  whose message is empty; the address is the program address of the seeds (owner,
  token program, mint) under the associated-token program.
\<close>

definition getAssociatedTokenAddressSync ::
  "library \<Rightarrow> pubkey \<Rightarrow> pubkey \<Rightarrow> bool \<Rightarrow> pubkey \<Rightarrow> pubkey \<Rightarrow> error + pubkey" where
  "getAssociatedTokenAddressSync L mint owner allowOwnerOffCurve programId associatedTokenProgramId =
     (if \<not> allowOwnerOffCurve \<and> \<not> isOnCurve L owner then Inl (Error [])
      else Inr (fst (findProgramAddressSync L
                  [toBuffer owner, toBuffer programId, toBuffer mint] associatedTokenProgramId)))"

record ata_result =
  ata_address :: pubkey
  ata_tokenProgramId :: pubkey
  ata_instruction :: "instruction option"

definition getOrCreateAtaIx ::
  "library \<Rightarrow> connection \<Rightarrow> pubkey \<Rightarrow> pubkey \<Rightarrow> pubkey \<Rightarrow> error + ata_result" where
  "getOrCreateAtaIx L connection payer owner mint =
     (case getTokenProgramId L connection mint of
        Inl e \<Rightarrow> Inl e
      | Inr tokenProgramId \<Rightarrow>
          (case getAssociatedTokenAddressSync L mint owner False tokenProgramId
                  (ASSOCIATED_TOKEN_PROGRAM_ID L) of
             Inl e \<Rightarrow> Inl e
           | Inr ata \<Rightarrow>
               (case connection ata of
                  Some ataInfo \<Rightarrow>
                    Inr \<lparr>ata_address = ata, ata_tokenProgramId = tokenProgramId,
                         ata_instruction = None\<rparr>
                | None \<Rightarrow>
                    Inr \<lparr>ata_address = ata, ata_tokenProgramId = tokenProgramId,
                         ata_instruction = Some (CreateAssociatedTokenAccount
                           payer ata owner mint tokenProgramId (ASSOCIATED_TOKEN_PROGRAM_ID L))\<rparr>)))"

section \<open>Position existence check\<close>

record position_result =
  pos_positionPda :: pubkey
  pos_instruction :: "instruction option"

definition ensurePositionIx ::
  "library \<Rightarrow> connection \<Rightarrow> byte list \<Rightarrow> pubkey \<Rightarrow> pubkey \<Rightarrow> pubkey \<Rightarrow> position_result" where
  "ensurePositionIx L connection marketId market owner payer =
     (let positionPda = fst (getPositionPDA L marketId owner)
      in case connection positionPda of
           Some info \<Rightarrow> \<lparr>pos_positionPda = positionPda, pos_instruction = None\<rparr>
         | None \<Rightarrow>
             \<lparr>pos_positionPda = positionPda,
              pos_instruction = Some (MethodCall ''createPosition'' [Bytes marketId]
                [(''payer'', payer), (''owner'', owner), (''market'', market),
                 (''position'', positionPda),
                 (''systemProgram'', SystemProgram_programId L)])\<rparr>)"

section \<open>Transaction assembly and submission\<close>

text \<open>\<open>Array.prototype.find\<close> is \<^const>\<open>List.find\<close>. A string is truthy when it is not empty.\<close>

definition truthy :: "string option \<Rightarrow> bool" where
  "truthy x = (case x of None \<Rightarrow> False | Some s \<Rightarrow> s \<noteq> [])"

definition orElse :: "string option \<Rightarrow> string option \<Rightarrow> string option" where
  "orElse a b = (if truthy a then a else b)"

text \<open>\<open>line.replace(/^Program log:\s*/, '')\<close>.\<close>

definition stripProgramLog :: "string \<Rightarrow> string" where
  "stripProgramLog line =
     (if prefix ''Program log:'' line
      then dropWhile isWhiteSpace (drop (length ''Program log:'') line)
      else line)"

definition formatTxLogSummary :: "string list option \<Rightarrow> string option" where
  "formatTxLogSummary logs =
     (case logs of
        None \<Rightarrow> None
      | Some ls \<Rightarrow>
          if length ls = 0 then None
          else
            (let instructionLine = find (\<lambda>line. includesStr line ''Program log: Instruction:'') ls;
                 anchorLine =
                   orElse
                     (orElse (find (\<lambda>line. includesStr line ''AnchorError'') ls)
                        (find (\<lambda>line. includesStr line ''Error Code'') ls))
                     (find (\<lambda>line. includesStr line ''custom program error'') ls);
                 parts = map (\<lambda>line. trim (stripProgramLog (the line)))
                           (filter truthy [instructionLine, anchorLine])
             in if length parts = 0 then None else Some (join '' | '' parts)))"

text \<open>
  Names for the tests and the clean-up \<open>formatTxLogSummary\<close> applies to a log line,
  and for the list an optional line contributes to the summary.
\<close>

definition mentionsInstruction :: "string \<Rightarrow> bool" where
  "mentionsInstruction line = includesStr line ''Program log: Instruction:''"

definition mentionsError :: "string \<Rightarrow> bool" where
  "mentionsError line =
     (includesStr line ''AnchorError'' \<or> includesStr line ''Error Code'' \<or>
      includesStr line ''custom program error'')"

definition cleanLine :: "string \<Rightarrow> string" where
  "cleanLine line = trim (stripProgramLog line)"

definition present :: "string option \<Rightarrow> string list" where
  "present x = (if truthy x then [the x] else [])"

text \<open>
  The lines the summary is made of, as the specification describes them: the first
  line naming the instruction, if any, followed by one error line, if any: the first
  line with \<open>AnchorError\<close>, failing that the first with \<open>Error Code\<close>, failing that the
  first with \<open>custom program error\<close>.
\<close>

definition firstMatch :: "(string \<Rightarrow> bool) \<Rightarrow> string list \<Rightarrow> string list" where
  "firstMatch P ls = (case find P ls of None \<Rightarrow> [] | Some line \<Rightarrow> [line])"

definition errorLine :: "string list \<Rightarrow> string list" where
  "errorLine ls =
     (if firstMatch (\<lambda>line. includesStr line ''AnchorError'') ls \<noteq> []
      then firstMatch (\<lambda>line. includesStr line ''AnchorError'') ls
      else if firstMatch (\<lambda>line. includesStr line ''Error Code'') ls \<noteq> []
      then firstMatch (\<lambda>line. includesStr line ''Error Code'') ls
      else firstMatch (\<lambda>line. includesStr line ''custom program error'') ls)"

definition summaryLines :: "string list \<Rightarrow> string list" where
  "summaryLines ls = firstMatch mentionsInstruction ls @ errorLine ls"

text \<open>
  The \<open>catch\<close> block first obtains \<open>logs\<close>. For a \<open>SendTransactionError\<close> it awaits
  \<open>error.getLogs(connection)\<close>, with nothing around the await: when that rejects, the
  rejection leaves the block and the error caught is dropped. For any other object it
  reads the \<open>logs\<close> property.
\<close>

fun getLogsRejection :: "error \<Rightarrow> error option" where
  "getLogsRejection (SendTransactionError m (Inl rejection)) = Some rejection"
| "getLogsRejection _ = None"

fun logsOf :: "error \<Rightarrow> string list option" where
  "logsOf (SendTransactionError m (Inr ls)) = Some ls"
| "logsOf (SendTransactionError m (Inl rejection)) = None"
| "logsOf (ErrorWithLogs m l) = l"
| "logsOf (NotAnError l) = l"
| "logsOf (Error m) = None"

fun instanceofError :: "error \<Rightarrow> bool" where
  "instanceofError (NotAnError l) = False"
| "instanceofError _ = True"

fun message :: "error \<Rightarrow> string" where
  "message (Error m) = m"
| "message (SendTransactionError m g) = m"
| "message (ErrorWithLogs m l) = m"
| "message (NotAnError l) = []"

fun setMessage :: "string \<Rightarrow> error \<Rightarrow> error" where
  "setMessage m' (Error m) = Error m'"
| "setMessage m' (SendTransactionError m g) = SendTransactionError m' g"
| "setMessage m' (ErrorWithLogs m l) = ErrorWithLogs m' l"
| "setMessage m' (NotAnError l) = NotAnError l"

definition annotate :: "error \<Rightarrow> error" where
  "annotate err =
     (let summary = formatTxLogSummary (logsOf err)
      in if truthy summary \<and> instanceofError err \<and> \<not> includesStr (message err) (the summary)
         then setMessage (message err @ '' | '' @ the summary) err
         else err)"

text \<open>What leaves the \<open>catch\<close> block for a caught \<open>err\<close>.\<close>

definition rethrow :: "error \<Rightarrow> error" where
  "rethrow err =
     (case getLogsRejection err of
        Some rejection \<Rightarrow> rejection
      | None \<Rightarrow> annotate err)"

text \<open>\<open>list.filter(Boolean)\<close> on optional instructions: the ones that are present.\<close>

fun filterBoolean :: "'a option list \<Rightarrow> 'a list" where
  "filterBoolean [] = []"
| "filterBoolean (None # xs) = filterBoolean xs"
| "filterBoolean (Some x # xs) = x # filterBoolean xs"

definition tx_add :: "transaction \<Rightarrow> instruction \<Rightarrow> transaction" where
  "tx_add tx ix = tx\<lparr>tx_instructions := tx_instructions tx @ [ix]\<rparr>"

text \<open>
  \<open>provider.sendAndConfirm\<close> is the collaborator that signs and submits: it resolves to
  a signature or rejects. The result of \<open>sendInstructions\<close> is paired with the
  transactions handed to the collaborator, in order. The connection serves only to
  build the provider and to fetch the logs, which the thrown value carries here.
\<close>

type_synonym provider = "transaction \<Rightarrow> error + string"

definition sendInstructions ::
  "provider \<Rightarrow> pubkey \<Rightarrow> instruction option list \<Rightarrow> (error + string) \<times> transaction list" where
  "sendInstructions sendAndConfirm walletPublicKey instructions =
     (let tx = foldl tx_add \<lparr>tx_instructions = [], tx_feePayer = None\<rparr>
                 (filterBoolean instructions)
      in if length (tx_instructions tx) = 0
         then (Inl (Error ''No instructions to send''), [])
         else
           (let tx' = tx\<lparr>tx_feePayer := Some walletPublicKey\<rparr>
            in case sendAndConfirm tx' of
                 Inr signature \<Rightarrow> (Inr signature, [tx'])
               | Inl err \<Rightarrow> (Inl (rethrow err), [tx'])))"

section \<open>The supply action\<close>

record market =
  market_loanMint :: pubkey
  market_loanDecimals :: nat

datatype toast = Success string string | Failure string string

definition description :: "error \<Rightarrow> string" where
  "description err = (if instanceofError err then message err else ''Unknown error'')"

definition handleSupply ::
  "library \<Rightarrow> connection \<Rightarrow> provider \<Rightarrow> pubkey option \<Rightarrow> string \<Rightarrow> market \<Rightarrow> byte list
     \<Rightarrow> pubkey \<Rightarrow> toast option \<times> transaction list" where
  "handleSupply L connection sendAndConfirm wallet amount market marketId marketKey =
     (case wallet of
        None \<Rightarrow> (None, [])
      | Some walletPublicKey \<Rightarrow>
          if amount = [] then (None, [])
          else
            (let protocolState = fst (getProtocolStatePDA L);
                 loanVault = fst (getLoanVaultPDA L marketId)
             in case getOrCreateAtaIx L connection walletPublicKey walletPublicKey (market_loanMint market) of
                  Inl e \<Rightarrow> (Some (Failure ''Supply failed'' (description e)), [])
                | Inr ata \<Rightarrow>
                    (let pos = ensurePositionIx L connection marketId marketKey
                                 walletPublicKey walletPublicKey
                     in case parseTokenAmount amount (market_loanDecimals market) of
                          Inl e \<Rightarrow> (Some (Failure ''Supply failed'' (description e)), [])
                        | Inr assets \<Rightarrow>
                            (case parseIntegerAmount ''0'' of
                               Inl e \<Rightarrow> (Some (Failure ''Supply failed'' (description e)), [])
                             | Inr minShares \<Rightarrow>
                                 (let supplyIx = MethodCall ''supply''
                                        [Bytes marketId, Amount assets, Amount minShares]
                                        [(''supplier'', walletPublicKey),
                                         (''protocolState'', protocolState),
                                         (''market'', marketKey),
                                         (''position'', pos_positionPda pos),
                                         (''onBehalfOf'', walletPublicKey),
                                         (''supplierTokenAccount'', ata_address ata),
                                         (''loanVault'', loanVault),
                                         (''loanMint'', market_loanMint market),
                                         (''tokenProgram'', ata_tokenProgramId ata)]
                                  in case sendInstructions sendAndConfirm walletPublicKey
                                            [ata_instruction ata, pos_instruction pos, Some supplyIx] of
                                       (Inr signature, sent) \<Rightarrow>
                                         (Some (Success ''Supply submitted'' signature), sent)
                                     | (Inl e, sent) \<Rightarrow>
                                         (Some (Failure ''Supply failed'' (description e)), sent))))))"

section \<open>Stand-ins for evaluation\<close>

text \<open>
  A small library and chain state on which the model can be run. As with the real
  libraries, every derived program address is off the curve, and the two token
  programs differ. Keys are short byte strings to keep the examples readable.
\<close>

definition testLibrary :: library where
  "testLibrary =
     \<lparr>keccak_256 = (\<lambda>data. take 32 (data @ replicate 32 0)),
      findProgramAddressSync = (\<lambda>seeds programId. (PublicKey (255 # concat seeds), 255)),
      isOnCurve = (\<lambda>key. take 1 (toBuffer key) \<noteq> [255]),
      publicKeyOfBase58 = (\<lambda>text. PublicKey (Buffer_from text)),
      TOKEN_PROGRAM_ID = PublicKey [1],
      TOKEN_2022_PROGRAM_ID = PublicKey [2],
      ASSOCIATED_TOKEN_PROGRAM_ID = PublicKey [3],
      SystemProgram_programId = PublicKey [0]\<rparr>"

text \<open>
  Mints \<open>[10]\<close> (classic token program), \<open>[11]\<close> (Token-2022) and \<open>[12]\<close> (owned by the
  system program), and the Token-2022 account of owner \<open>[21]\<close> for mint \<open>[11]\<close>.
\<close>

definition testConnection :: connection where
  "testConnection =
     (\<lambda>key. if key = PublicKey [10] then Some \<lparr>info_owner = PublicKey [1], info_data = []\<rparr>
            else if key = PublicKey [11] then Some \<lparr>info_owner = PublicKey [2], info_data = []\<rparr>
            else if key = PublicKey [12] then Some \<lparr>info_owner = PublicKey [0], info_data = []\<rparr>
            else if key = PublicKey [255, 21, 2, 11]
              then Some \<lparr>info_owner = PublicKey [2], info_data = []\<rparr>
            else None)"

text \<open>An instruction, and two markets over the mints \<open>[10]\<close> and \<open>[11]\<close>.\<close>

definition testIx :: instruction where
  "testIx = MethodCall ''supply'' [Bytes [7], Amount 100000000, Amount 0] []"

definition testMarket :: market where
  "testMarket = \<lparr>market_loanMint = PublicKey [10], market_loanDecimals = 6\<rparr>"

definition testMarket2022 :: market where
  "testMarket2022 = \<lparr>market_loanMint = PublicKey [11], market_loanDecimals = 6\<rparr>"

section \<open>Properties\<close>

lemma replicate_numeral_unfold: "replicate (numeral k) x = x # replicate (pred_numeral k) x"
  by (simp add: numeral_eq_Suc)

lemma take_numeral_unfold: "take (numeral k) (x # xs) = x # take (pred_numeral k) xs"
  by (simp add: numeral_eq_Suc)

subsection \<open>The matcher decides the language of a pattern\<close>

lemma acceptsEmpty_lang: "acceptsEmpty r \<longleftrightarrow> [] \<in> lang r"
  by (induction r) (auto intro: repetitions.none)

lemma repetitions_Cons_split:
  assumes "w \<in> repetitions A" and "w = c # s"
  shows "\<exists>u v. s = u @ v \<and> c # u \<in> A \<and> v \<in> repetitions A"
  using assms
proof (induction arbitrary: s rule: repetitions.induct)
  case none
  then show ?case by simp
next
  case (more u v)
  show ?case
  proof (cases u)
    case Nil
    with more show ?thesis by simp
  next
    case (Cons a u')
    with more.prems have "a = c" and "s = u' @ v" by simp_all
    with Cons more.hyps show ?thesis by blast
  qed
qed

lemma repetitions_Cons:
  "c # s \<in> repetitions A \<longleftrightarrow> (\<exists>u v. s = u @ v \<and> c # u \<in> A \<and> v \<in> repetitions A)"
proof
  assume "c # s \<in> repetitions A"
  then show "\<exists>u v. s = u @ v \<and> c # u \<in> A \<and> v \<in> repetitions A"
    by (rule repetitions_Cons_split) simp
next
  assume "\<exists>u v. s = u @ v \<and> c # u \<in> A \<and> v \<in> repetitions A"
  then obtain u v where "s = u @ v" "c # u \<in> A" "v \<in> repetitions A" by blast
  then have "(c # u) @ v \<in> repetitions A" by (intro repetitions.more)
  with \<open>s = u @ v\<close> show "c # s \<in> repetitions A" by simp
qed

lemma after_lang: "s \<in> lang (after c r) \<longleftrightarrow> c # s \<in> lang r"
proof (induction r arbitrary: s)
  case (Seq r q)
  show ?case
  proof (cases "acceptsEmpty r")
    case True
    then have "[] \<in> lang r" by (simp add: acceptsEmpty_lang)
    then show ?thesis
      using True Seq by (auto simp: Cons_eq_append_conv) 
  next
    case False
    then have "[] \<notin> lang r" by (simp add: acceptsEmpty_lang)
    then show ?thesis
      using False Seq by (auto simp: Cons_eq_append_conv)
  qed
next
  case (Many r)
  then show ?case by (auto simp: repetitions_Cons)
qed auto

lemma test_lang: "test r s \<longleftrightarrow> s \<in> lang r"
  by (induction s arbitrary: r) (simp_all add: acceptsEmpty_lang after_lang)

subsection \<open>The two patterns\<close>

lemma repetitions_digits: "w \<in> repetitions {[c] | c. isDigit c} \<longleftrightarrow> list_all isDigit w"
proof (induction w)
  case Nil
  show ?case by (simp add: repetitions.none)
next
  case (Cons a w)
  then show ?case by (auto simp: repetitions_Cons)
qed

lemma lang_Seq_iff: "s \<in> lang (Seq r q) \<longleftrightarrow> (\<exists>u v. s = u @ v \<and> u \<in> lang r \<and> v \<in> lang q)"
  by auto

lemma lang_OneOrMore_DigitClass:
  "w \<in> lang (OneOrMore DigitClass) \<longleftrightarrow> w \<noteq> [] \<and> list_all isDigit w"
proof -
  have "w \<in> lang (OneOrMore DigitClass) \<longleftrightarrow>
          (\<exists>c v. w = [c] @ v \<and> isDigit c \<and> list_all isDigit v)"
    unfolding OneOrMore_def lang_Seq_iff
    by (auto simp: repetitions_digits) (metis append_Cons append_Nil)
  also have "\<dots> \<longleftrightarrow> w \<noteq> [] \<and> list_all isDigit w"
    by (cases w) auto
  finally show ?thesis .
qed

lemma lang_integerPattern:
  "s \<in> lang integerPattern \<longleftrightarrow> s \<noteq> [] \<and> list_all isDigit s"
  by (simp add: integerPattern_def lang_OneOrMore_DigitClass)

lemma lang_decimalPattern:
  "s \<in> lang decimalPattern \<longleftrightarrow>
     (\<exists>w. w \<noteq> [] \<and> list_all isDigit w \<and>
        (s = w \<or> (\<exists>f. f \<noteq> [] \<and> list_all isDigit f \<and> s = w @ CHR ''.'' # f)))"
proof -
  have opt: "\<And>v. v \<in> lang (Optional (Seq (Lit CHR ''.'') (OneOrMore DigitClass))) \<longleftrightarrow>
      v = [] \<or> (\<exists>f. f \<noteq> [] \<and> list_all isDigit f \<and> v = CHR ''.'' # f)"
    unfolding Optional_def lang.simps(6) lang_Seq_iff Un_iff lang_OneOrMore_DigitClass
    by auto
  show ?thesis
    unfolding decimalPattern_def lang_Seq_iff opt lang_OneOrMore_DigitClass
    by auto
qed

subsection \<open>Digit strings\<close>

lemma digitsValue_snoc: "digitsValue (s @ [c]) = 10 * digitsValue s + digitValue c"
  by (simp add: digitsValue_def)

lemma decimalNumber_snoc: "decimalNumber (s @ [c]) = 10 * decimalNumber s + digitValue c"
proof -
  have "(\<Sum>i<length s. digitValue ((s @ [c]) ! i) * 10 ^ (length (s @ [c]) - Suc i)) =
        (\<Sum>i<length s. 10 * (digitValue (s ! i) * 10 ^ (length s - Suc i)))"
  proof (rule sum.cong)
    fix i assume "i \<in> {..<length s}"
    then have i: "i < length s" by simp
    then have "length (s @ [c]) - Suc i = Suc (length s - Suc i)" by simp
    with i show "digitValue ((s @ [c]) ! i) * 10 ^ (length (s @ [c]) - Suc i) =
          10 * (digitValue (s ! i) * 10 ^ (length s - Suc i))"
      by (simp add: nth_append)
  qed simp
  then show ?thesis
    by (simp add: decimalNumber_def sum_distrib_left)
qed

lemma digitsValue_decimalNumber: "digitsValue s = decimalNumber s"
proof (induction s rule: rev_induct)
  case Nil
  show ?case by (simp add: digitsValue_def decimalNumber_def)
next
  case (snoc c s)
  then show ?case by (simp add: digitsValue_snoc decimalNumber_snoc)
qed

lemma digitsValue_append:
  "digitsValue (s @ t) = digitsValue s * 10 ^ length t + digitsValue t"
proof (induction t rule: rev_induct)
  case Nil
  show ?case by (simp add: digitsValue_def)
next
  case (snoc c t)
  have "digitsValue (s @ t @ [c]) = 10 * digitsValue (s @ t) + digitValue c"
    using digitsValue_snoc [of "s @ t" c] by simp
  with snoc show ?case by (simp add: digitsValue_snoc algebra_simps)
qed

lemma digitValue_less: "isDigit c \<Longrightarrow> digitValue c < 10"
  by (auto simp: isDigit_def digitValue_def)

lemma digitsValue_less: "list_all isDigit s \<Longrightarrow> digitsValue s < 10 ^ length s"
proof (induction s rule: rev_induct)
  case Nil
  show ?case by (simp add: digitsValue_def)
next
  case (snoc c s)
  then have "digitsValue s < 10 ^ length s" and "digitValue c < 10"
    by (simp_all add: digitValue_less)
  then have "10 * digitsValue s + digitValue c < 10 * 10 ^ length s" by simp
  then show ?case by (simp add: digitsValue_snoc)
qed

lemma digitsValue_zeros: "digitsValue (replicate n CHR ''0'') = 0"
proof (induction n)
  case 0
  show ?case by (simp add: digitsValue_def)
next
  case (Suc n)
  have "replicate (Suc n) CHR ''0'' = replicate n CHR ''0'' @ [CHR ''0'']"
    by (simp add: replicate_append_same)
  with Suc show ?case by (simp add: digitsValue_snoc digitValue_def)
qed

text \<open>Padding then cutting a fraction to \<open>d\<close> digits is the floor of its scaled value.\<close>

lemma digitsValue_padded:
  assumes "list_all isDigit f"
  shows "digitsValue (take d (f @ replicate (d - length f) CHR ''0'')) =
           (digitsValue f * 10 ^ d) div 10 ^ length f"
proof (cases "length f \<le> d")
  case True
  then have "take d (f @ replicate (d - length f) CHR ''0'') = f @ replicate (d - length f) CHR ''0''"
    by simp
  moreover have "(10::nat) ^ d = 10 ^ (d - length f) * 10 ^ length f"
    using True by (simp flip: power_add)
  ultimately show ?thesis
    by (simp add: digitsValue_append digitsValue_zeros)
next
  case False
  then have cut: "take d (f @ replicate (d - length f) CHR ''0'') = take d f" by simp
  have f: "f = take d f @ drop d f" by simp
  have len: "length (drop d f) = length f - d" by simp
  have "list_all isDigit (drop d f)"
    using assms by (metis append_take_drop_id list_all_append)
  then have small: "digitsValue (drop d f) < 10 ^ (length f - d)"
    using digitsValue_less [of "drop d f"] by simp
  have val: "digitsValue f = digitsValue (take d f) * 10 ^ (length f - d) + digitsValue (drop d f)"
    using digitsValue_append [of "take d f" "drop d f"] by simp
  have pw: "(10::nat) ^ length f = 10 ^ d * 10 ^ (length f - d)"
    using False by (simp flip: power_add)
  have "(digitsValue f * 10 ^ d) div 10 ^ length f = digitsValue f div 10 ^ (length f - d)"
    unfolding pw by simp
  also have "\<dots> = digitsValue (take d f)"
    unfolding val using small by simp
  finally show ?thesis using cut by simp
qed

subsection \<open>Amount parsing\<close>

lemma split_no_separator: "sep \<notin> set s \<Longrightarrow> split sep s = [s]"
  by (induction s) auto

lemma split_at_separator:
  "sep \<notin> set w \<Longrightarrow> split sep (w @ sep # rest) = w # split sep rest"
  by (induction w) auto

lemma dot_not_digit: "list_all isDigit w \<Longrightarrow> CHR ''.'' \<notin> set w"
  by (auto simp: list_all_iff isDigit_def)

lemma BigInt_orZero: "list_all isDigit s \<Longrightarrow> BigInt (orZero s) = Some (digitsValue s)"
  by (auto simp: BigInt_def orZero_def digitsValue_def digitValue_def isDigit_def)

lemma isDigit_zero: "isDigit CHR ''0''"
  by (simp add: isDigit_def)

lemma paddedFraction_digits:
  "list_all isDigit f \<Longrightarrow> list_all isDigit (slice0 (padEnd f d CHR ''0'') d)"
  by (auto simp: slice0_def padEnd_def list_all_iff isDigit_zero dest: in_set_takeD)

lemma parseTokenAmount_pieces:
  assumes w: "w \<noteq> []" "list_all isDigit w" and f: "list_all isDigit f"
    and s: "trim s = (if f = [] then w else w @ CHR ''.'' # f)"
  shows "parseTokenAmount s d =
           Inr (digitsValue w * 10 ^ d +
                digitsValue (take d (f @ replicate (d - length f) CHR ''0'')))"
proof -
  have nonempty: "trim s \<noteq> []" using w s by (simp split: if_splits)
  have "trim s \<in> lang decimalPattern"
    unfolding lang_decimalPattern using w f s by (auto split: if_splits)
  then have ok: "test decimalPattern (trim s)" by (simp add: test_lang)
  have pieces: "wholeAndFraction (split CHR ''.'' (trim s)) = (w, f)"
  proof (cases "f = []")
    case True
    then show ?thesis
      using s w by (simp add: split_no_separator dot_not_digit wholeAndFraction_def)
  next
    case False
    then show ?thesis
      using s w f
      by (simp add: split_at_separator split_no_separator dot_not_digit wholeAndFraction_def)
  qed
  have whole: "BigInt (orZero w) = Some (digitsValue w)"
    using w by (simp add: BigInt_orZero)
  have frac: "BigInt (orZero (slice0 (padEnd f d CHR ''0'') d)) =
                Some (digitsValue (slice0 (padEnd f d CHR ''0'') d))"
    using f by (simp add: BigInt_orZero paddedFraction_digits)
  show ?thesis
    using nonempty ok pieces whole frac
    by (simp add: parseTokenAmount_def Let_def) (simp add: slice0_def padEnd_def)
qed

lemma parseTokenAmount_empty: "trim s = [] \<Longrightarrow> parseTokenAmount s d = Inr 0"
  by (simp add: parseTokenAmount_def)

lemma parseTokenAmount_invalid:
  "trim s \<noteq> [] \<Longrightarrow> trim s \<notin> lang decimalPattern \<Longrightarrow>
     parseTokenAmount s d = Inl (Error ''Invalid amount format'')"
  by (simp add: parseTokenAmount_def test_lang)

lemma parseIntegerAmount_invalid:
  "trim s \<notin> lang integerPattern \<Longrightarrow> parseIntegerAmount s = Inl (Error ''Invalid integer amount'')"
  by (simp add: parseIntegerAmount_def test_lang)

lemmas eval_parse = parseTokenAmount_def parseIntegerAmount_def trim_def isWhiteSpace_def
  decimalPattern_def integerPattern_def OneOrMore_def Optional_def isDigit_def
  wholeAndFraction_def slice0_def padEnd_def BigInt_def orZero_def digitsValue_def
  digitValue_def Let_def replicate_numeral_unfold take_numeral_unfold

lemma first_separator_unique:
  "c \<notin> set u \<Longrightarrow> c \<notin> set u' \<Longrightarrow> u @ c # v = u' @ c # v' \<Longrightarrow> u = u' \<and> v = v'"
proof (induction u arbitrary: u')
  case Nil
  then show ?case by (cases u') auto
next
  case (Cons a u)
  then show ?case by (cases u') auto
qed

lemma decimal_parts:
  assumes t: "t \<in> lang decimalPattern" and w: "CHR ''.'' \<notin> set w"
    and shape: "t = (if f = [] then w else w @ CHR ''.'' # f)"
  shows "w \<noteq> [] \<and> list_all isDigit w \<and> list_all isDigit f"
proof -
  from t obtain w' where w': "w' \<noteq> []" "list_all isDigit w'"
    and alt: "t = w' \<or> (\<exists>f'. f' \<noteq> [] \<and> list_all isDigit f' \<and> t = w' @ CHR ''.'' # f')"
    unfolding lang_decimalPattern by blast
  have nodot: "CHR ''.'' \<notin> set w'" using w' by (simp add: dot_not_digit)
  show ?thesis
  proof (cases "f = []")
    case True
    with shape have "CHR ''.'' \<notin> set t" using w by simp
    with alt have "t = w'" by auto
    with True shape w' show ?thesis by simp
  next
    case False
    with shape have tw: "t = w @ CHR ''.'' # f" by simp
    then have "CHR ''.'' \<in> set t" by simp
    with alt nodot obtain f' where f': "list_all isDigit f'" "t = w' @ CHR ''.'' # f'"
      by auto
    from tw f' have "w @ CHR ''.'' # f = w' @ CHR ''.'' # f'" by simp
    from first_separator_unique [OF w nodot this] have "w = w'" "f = f'" by simp_all
    with w' f' show ?thesis by simp
  qed
qed

lemma lang_decimalPattern_pieces:
  "s \<in> lang decimalPattern \<longleftrightarrow>
     (\<exists>w f. w \<noteq> [] \<and> list_all isDigit w \<and> list_all isDigit f \<and>
            s = (if f = [] then w else w @ CHR ''.'' # f))"
proof
  assume "s \<in> lang decimalPattern"
  then obtain w where w: "w \<noteq> []" "list_all isDigit w"
    and alt: "s = w \<or> (\<exists>f. f \<noteq> [] \<and> list_all isDigit f \<and> s = w @ CHR ''.'' # f)"
    unfolding lang_decimalPattern by blast
  from alt show "\<exists>w f. w \<noteq> [] \<and> list_all isDigit w \<and> list_all isDigit f \<and>
            s = (if f = [] then w else w @ CHR ''.'' # f)"
  proof
    assume "s = w"
    with w have "w \<noteq> [] \<and> list_all isDigit w \<and> list_all isDigit [] \<and>
            s = (if [] = ([]::string) then w else w @ CHR ''.'' # [])" by simp
    then show ?thesis by blast
  next
    assume "\<exists>f. f \<noteq> [] \<and> list_all isDigit f \<and> s = w @ CHR ''.'' # f"
    then obtain f where "f \<noteq> []" "list_all isDigit f" "s = w @ CHR ''.'' # f" by blast
    with w have "w \<noteq> [] \<and> list_all isDigit w \<and> list_all isDigit f \<and>
            s = (if f = [] then w else w @ CHR ''.'' # f)" by simp
    then show ?thesis by blast
  qed
next
  assume "\<exists>w f. w \<noteq> [] \<and> list_all isDigit w \<and> list_all isDigit f \<and>
            s = (if f = [] then w else w @ CHR ''.'' # f)"
  then show "s \<in> lang decimalPattern"
    unfolding lang_decimalPattern by (auto split: if_splits)
qed

lemma digit_not_space: "isDigit c \<Longrightarrow> \<not> isWhiteSpace c"
  by (auto simp: isDigit_def isWhiteSpace_def)

lemma trim_unchanged:
  assumes "s \<noteq> []" "\<not> isWhiteSpace (hd s)" "\<not> isWhiteSpace (last s)"
  shows "trim s = s"
proof -
  from assms have a: "dropWhile isWhiteSpace s = s" by (cases s) auto
  from assms have "rev s \<noteq> []" "\<not> isWhiteSpace (hd (rev s))" by (simp_all add: hd_rev)
  then have "dropWhile isWhiteSpace (rev s) = rev s" by (cases "rev s") auto
  with a show ?thesis by (simp add: trim_def)
qed

lemma trim_decimal: "s \<in> lang decimalPattern \<Longrightarrow> trim s = s"
proof -
  assume "s \<in> lang decimalPattern"
  then obtain w where w: "w \<noteq> []" "list_all isDigit w"
    and alt: "s = w \<or> (\<exists>f. f \<noteq> [] \<and> list_all isDigit f \<and> s = w @ CHR ''.'' # f)"
    unfolding lang_decimalPattern by blast
  from w have "isDigit (hd w)" by (cases w) auto
  with w alt have first: "s \<noteq> []" "\<not> isWhiteSpace (hd s)"
    by (auto simp: digit_not_space)
  have "isDigit (last s)"
    using alt
  proof
    assume "s = w"
    with w show ?thesis by (simp add: list_all_iff)
  next
    assume "\<exists>f. f \<noteq> [] \<and> list_all isDigit f \<and> s = w @ CHR ''.'' # f"
    then obtain f where "f \<noteq> []" "list_all isDigit f" "s = w @ CHR ''.'' # f" by blast
    then show ?thesis by (simp add: list_all_iff)
  qed
  with first show "trim s = s" by (intro trim_unchanged) (simp_all add: digit_not_space)
qed

lemma rationalValue_pieces:
  assumes "CHR ''.'' \<notin> set w"
  shows "rationalValue (if f = [] then w else w @ CHR ''.'' # f) =
           of_nat (decimalNumber w) + of_nat (decimalNumber f) / 10 ^ length f"
proof (cases "f = []")
  case True
  have tw: "takeWhile (\<lambda>c. c \<noteq> CHR ''.'') w = w"
    and dw: "dropWhile (\<lambda>c. c \<noteq> CHR ''.'') w = []"
    using assms by auto
  show ?thesis by (simp add: rationalValue_def True tw dw)
next
  case False
  have tw: "takeWhile (\<lambda>c. c \<noteq> CHR ''.'') (w @ CHR ''.'' # f) = w"
    and dw: "dropWhile (\<lambda>c. c \<noteq> CHR ''.'') (w @ CHR ''.'' # f) = CHR ''.'' # f"
    using assms by (induction w) auto
  show ?thesis by (simp add: rationalValue_def False tw dw)
qed

lemma floor_scaled:
  "\<lfloor>(of_nat W + of_nat F / 10 ^ n) * 10 ^ d :: rat\<rfloor> = int (W * 10 ^ d + (F * 10 ^ d) div 10 ^ n)"
proof -
  have "(of_nat W + of_nat F / 10 ^ n) * 10 ^ d =
          (of_nat (W * 10 ^ d) + of_nat (F * 10 ^ d) / of_nat (10 ^ n) :: rat)"
    by (simp add: algebra_simps)
  also have "\<lfloor>\<dots>\<rfloor> = int (W * 10 ^ d) + \<lfloor>of_nat (F * 10 ^ d) / of_nat (10 ^ n) :: rat\<rfloor>"
    by (metis floor_add_int add.commute of_int_of_nat_eq)
  also have "\<dots> = int (W * 10 ^ d) + int ((F * 10 ^ d) div 10 ^ n)"
    by (simp only: floor_divide_of_nat_eq)
  finally show ?thesis by simp
qed

lemma parseTokenAmount_floor:
  assumes "s \<in> lang decimalPattern"
  shows "parseTokenAmount s d = Inr (nat \<lfloor>rationalValue s * 10 ^ d\<rfloor>)"
proof -
  from assms obtain w f where w: "w \<noteq> []" "list_all isDigit w" and f: "list_all isDigit f"
    and s: "s = (if f = [] then w else w @ CHR ''.'' # f)"
    unfolding lang_decimalPattern_pieces by blast
  have t: "trim s = (if f = [] then w else w @ CHR ''.'' # f)"
    using assms s by (simp add: trim_decimal)
  have "rationalValue s = of_nat (decimalNumber w) + of_nat (decimalNumber f) / 10 ^ length f"
    unfolding s using w by (intro rationalValue_pieces) (simp add: dot_not_digit)
  then have fl: "\<lfloor>rationalValue s * 10 ^ d\<rfloor> =
      int (decimalNumber w * 10 ^ d + (decimalNumber f * 10 ^ d) div 10 ^ length f)"
    by (simp only: floor_scaled)
  have p: "parseTokenAmount s d =
      Inr (decimalNumber w * 10 ^ d + (decimalNumber f * 10 ^ d) div 10 ^ length f)"
    using parseTokenAmount_pieces [OF w f t, of d] digitsValue_padded [OF f, of d]
    by (simp only: digitsValue_decimalNumber)
  show ?thesis unfolding p fl by (simp only: nat_int)
qed

text \<open>
  C2. If the input trims to the empty string, \<open>parseTokenAmount\<close> returns 0. If the
  trimmed input matches \<open>^\d+(\.\d+)?$\<close> and has whole part \<open>w\<close> and fractional part \<open>f\<close>
  (empty when there is no point), it returns \<open>w * 10^d\<close> plus \<open>f\<close> padded on the right with
  zeros to \<open>d\<close> digits and cut to its first \<open>d\<close> digits, read as a decimal number; that
  summand is the floor of \<open>f * 10^d / 10^|f|\<close>, so surplus digits are dropped, never
  rounded. In particular \<open>parseTokenAmount("1.5", 6) = 1500000\<close>.
\<close>

theorem parseTokenAmount_value:
  "(trim s = [] \<longrightarrow> parseTokenAmount s d = Inr 0) \<and>
   (\<forall>w f. trim s \<in> lang decimalPattern \<and> CHR ''.'' \<notin> set w \<and>
          trim s = (if f = [] then w else w @ CHR ''.'' # f) \<longrightarrow>
      parseTokenAmount s d =
        Inr (decimalNumber w * 10 ^ d +
             decimalNumber (take d (f @ replicate (d - length f) CHR ''0''))) \<and>
      decimalNumber (take d (f @ replicate (d - length f) CHR ''0'')) =
        (decimalNumber f * 10 ^ d) div 10 ^ length f) \<and>
   parseTokenAmount ''1.5'' 6 = Inr 1500000"
proof (intro conjI allI impI)
  assume "trim s = []"
  then show "parseTokenAmount s d = Inr 0" by (rule parseTokenAmount_empty)
next
  fix w f
  assume h: "trim s \<in> lang decimalPattern \<and> CHR ''.'' \<notin> set w \<and>
          trim s = (if f = [] then w else w @ CHR ''.'' # f)"
  then have parts: "w \<noteq> [] \<and> list_all isDigit w \<and> list_all isDigit f"
    using decimal_parts [of "trim s" w f] by blast
  with h show "parseTokenAmount s d =
        Inr (decimalNumber w * 10 ^ d +
             decimalNumber (take d (f @ replicate (d - length f) CHR ''0'')))"
    using parseTokenAmount_pieces [of w f s d] by (simp add: digitsValue_decimalNumber)
  from parts show "decimalNumber (take d (f @ replicate (d - length f) CHR ''0'')) =
        (decimalNumber f * 10 ^ d) div 10 ^ length f"
    using digitsValue_padded [of f d] by (simp add: digitsValue_decimalNumber)
next
  show "parseTokenAmount ''1.5'' 6 = Inr 1500000"
    by (simp add: eval_parse)
qed

theorem parseTokenAmount_value_witness:
  "parseTokenAmount '' 12.3456789 '' 6 = Inr 12345678 \<and>
   parseTokenAmount '' 7'' 2 = Inr 700 \<and>
   parseTokenAmount ''   '' 6 = Inr 0"
proof -
  have t1: "trim '' 12.3456789 '' = ''12.3456789''" and t2: "trim '' 7'' = ''7''"
    and t3: "trim ''   '' = []"
    by (simp_all add: trim_def isWhiteSpace_def)
  have m1: "trim '' 12.3456789 '' \<in> lang decimalPattern"
    and m2: "trim '' 7'' \<in> lang decimalPattern"
    unfolding t1 t2 test_lang [symmetric]
    by (simp_all add: decimalPattern_def OneOrMore_def Optional_def isDigit_def)
  have "parseTokenAmount '' 12.3456789 '' 6 =
          Inr (decimalNumber ''12'' * 10 ^ 6 +
               decimalNumber (take 6 (''3456789'' @ replicate (6 - length ''3456789'') CHR ''0'')))"
    using parseTokenAmount_value [of " '' 12.3456789 ''" 6, THEN conjunct2, THEN conjunct1,
        THEN spec, THEN spec, of "''12''" "''3456789''"] m1 t1
    by simp
  then have a: "parseTokenAmount '' 12.3456789 '' 6 = Inr 12345678"
    by (simp add: digitsValue_decimalNumber [symmetric] digitsValue_def digitValue_def
        take_numeral_unfold)
  have "parseTokenAmount '' 7'' 2 =
          Inr (decimalNumber ''7'' * 10 ^ 2 +
               decimalNumber (take 2 ([] @ replicate (2 - length ([]::string)) CHR ''0'')))"
    using parseTokenAmount_value [of " '' 7''" 2, THEN conjunct2, THEN conjunct1,
        THEN spec, THEN spec, of "''7''" "[]"] m2 t2
    by simp
  then have b: "parseTokenAmount '' 7'' 2 = Inr 700"
    by (simp add: digitsValue_decimalNumber [symmetric] digitsValue_def digitValue_def
        take_numeral_unfold replicate_numeral_unfold)
  have c: "parseTokenAmount ''   '' 6 = Inr 0"
    using parseTokenAmount_value [of "''   ''" 6, THEN conjunct1] t3 by simp
  from a b c show ?thesis by simp
qed

text \<open>
  C8. Whenever the trimmed input is not empty and does not match \<open>^\d+(\.\d+)?$\<close>,
  \<open>parseTokenAmount\<close> fails with \<open>Invalid amount format\<close>, for every decimal count;
  whenever the trimmed input does not match \<open>^\d+$\<close>, \<open>parseIntegerAmount\<close> fails with
  \<open>Invalid integer amount\<close>. No value is returned in either case. Text, a negative
  number, exponent notation, and a decimal point in an integer are instances.
\<close>

theorem parse_rejects_malformed:
  "(trim s \<noteq> [] \<and> trim s \<notin> lang decimalPattern \<longrightarrow>
      parseTokenAmount s d = Inl (Error ''Invalid amount format'')) \<and>
   (trim s \<notin> lang integerPattern \<longrightarrow>
      parseIntegerAmount s = Inl (Error ''Invalid integer amount'')) \<and>
   parseTokenAmount ''abc'' d = Inl (Error ''Invalid amount format'') \<and>
   parseTokenAmount ''-5'' d = Inl (Error ''Invalid amount format'') \<and>
   parseTokenAmount ''1e5'' d = Inl (Error ''Invalid amount format'') \<and>
   parseIntegerAmount ''1.5'' = Inl (Error ''Invalid integer amount'') \<and>
   parseIntegerAmount '''' = Inl (Error ''Invalid integer amount'')"
proof (intro conjI impI)
  assume "trim s \<noteq> [] \<and> trim s \<notin> lang decimalPattern"
  then show "parseTokenAmount s d = Inl (Error ''Invalid amount format'')"
    by (simp add: parseTokenAmount_invalid)
next
  assume "trim s \<notin> lang integerPattern"
  then show "parseIntegerAmount s = Inl (Error ''Invalid integer amount'')"
    by (rule parseIntegerAmount_invalid)
qed (simp_all add: eval_parse)

theorem parse_rejects_malformed_witness:
  "parseTokenAmount ''12,5'' 2 = Inl (Error ''Invalid amount format'') \<and>
   parseIntegerAmount '' 7.0'' = Inl (Error ''Invalid integer amount'')"
proof -
  have t1: "trim ''12,5'' = ''12,5''" and t2: "trim '' 7.0'' = ''7.0''"
    by (simp_all add: trim_def isWhiteSpace_def)
  have m1: "trim ''12,5'' \<notin> lang decimalPattern"
    and m2: "trim '' 7.0'' \<notin> lang integerPattern"
    unfolding t1 t2 test_lang [symmetric]
    by (simp_all add: decimalPattern_def integerPattern_def OneOrMore_def Optional_def isDigit_def)
  have a: "parseTokenAmount ''12,5'' 2 = Inl (Error ''Invalid amount format'')"
    using parse_rejects_malformed [of "''12,5''" 2, THEN conjunct1] m1 t1 by simp
  have b: "parseIntegerAmount '' 7.0'' = Inl (Error ''Invalid integer amount'')"
    using parse_rejects_malformed [of "'' 7.0''", THEN conjunct2, THEN conjunct1] m2 by simp
  from a b show ?thesis by simp
qed

text \<open>
  C9. For inputs that match \<open>^\d+(\.\d+)?$\<close>, \<open>parseTokenAmount\<close> gives equal results
  exactly when the rational numbers the inputs denote agree after truncation to \<open>d\<close>
  fractional digits, that is, when the floors of their values scaled by \<open>10^d\<close> agree.
\<close>

theorem parseTokenAmount_injective_on_truncation:
  assumes "s1 \<in> lang decimalPattern" and "s2 \<in> lang decimalPattern"
  shows "parseTokenAmount s1 d = parseTokenAmount s2 d \<longleftrightarrow>
           \<lfloor>rationalValue s1 * 10 ^ d\<rfloor> = \<lfloor>rationalValue s2 * 10 ^ d\<rfloor>"
proof -
  have nonneg: "\<And>s. s \<in> lang decimalPattern \<Longrightarrow> 0 \<le> \<lfloor>rationalValue s * 10 ^ d\<rfloor>"
  proof -
    fix s :: string
    have "0 \<le> rationalValue s" by (simp add: rationalValue_def Let_def)
    then show "0 \<le> \<lfloor>rationalValue s * 10 ^ d\<rfloor>" by simp
  qed
  show ?thesis
    using assms nonneg [of s1] nonneg [of s2]
    by (simp add: parseTokenAmount_floor nat_eq_iff)
qed

theorem parseTokenAmount_injective_on_truncation_witness:
  "parseTokenAmount ''1.5'' 6 = parseTokenAmount ''1.5000009'' 6 \<and>
   \<lfloor>rationalValue ''1.5'' * 10 ^ 6\<rfloor> = \<lfloor>rationalValue ''1.5000009'' * 10 ^ 6\<rfloor> \<and>
   parseTokenAmount ''1.5'' 6 \<noteq> parseTokenAmount ''1.500001'' 6 \<and>
   \<lfloor>rationalValue ''1.5'' * 10 ^ 6\<rfloor> \<noteq> \<lfloor>rationalValue ''1.500001'' * 10 ^ 6\<rfloor>"
proof -
  have m: "''1.5'' \<in> lang decimalPattern" "''1.5000009'' \<in> lang decimalPattern"
      "''1.500001'' \<in> lang decimalPattern"
    unfolding test_lang [symmetric]
    by (simp_all add: decimalPattern_def OneOrMore_def Optional_def isDigit_def)
  have a: "parseTokenAmount ''1.5'' 6 = parseTokenAmount ''1.5000009'' 6"
    by (simp add: eval_parse)
  have b: "parseTokenAmount ''1.5'' 6 \<noteq> parseTokenAmount ''1.500001'' 6"
    by (simp add: eval_parse)
  from a b parseTokenAmount_injective_on_truncation [OF m(1) m(2), of 6]
    parseTokenAmount_injective_on_truncation [OF m(1) m(3), of 6]
  show ?thesis by blast
qed

subsection \<open>Transaction assembly\<close>

lemma foldl_tx_add_instructions:
  "tx_instructions (foldl tx_add t ixs) = tx_instructions t @ ixs"
  by (induction ixs arbitrary: t) (simp_all add: tx_add_def)

lemma foldl_tx_add_feePayer:
  "tx_feePayer (foldl tx_add t ixs) = tx_feePayer t"
  by (induction ixs arbitrary: t) (simp_all add: tx_add_def)

lemma foldl_tx_add:
  "foldl tx_add \<lparr>tx_instructions = [], tx_feePayer = None\<rparr> ixs =
     \<lparr>tx_instructions = ixs, tx_feePayer = None\<rparr>"
  by (rule transaction.equality) (simp_all add: foldl_tx_add_instructions foldl_tx_add_feePayer)

lemma filterBoolean_present:
  "map Some (filterBoolean xs) = filter (\<lambda>x. x \<noteq> None) xs"
  by (induction xs rule: filterBoolean.induct) simp_all

lemma filterBoolean_empty_iff:
  "filterBoolean xs = [] \<longleftrightarrow> (\<forall>x \<in> set xs. x = None)"
  by (induction xs rule: filterBoolean.induct) simp_all

lemma sendInstructions_unfold:
  "sendInstructions sendAndConfirm walletPublicKey instructions =
     (if filterBoolean instructions = [] then (Inl (Error ''No instructions to send''), [])
      else (case sendAndConfirm \<lparr>tx_instructions = filterBoolean instructions,
                                  tx_feePayer = Some walletPublicKey\<rparr> of
              Inr signature \<Rightarrow> Inr signature
            | Inl err \<Rightarrow> Inl (rethrow err),
            [\<lparr>tx_instructions = filterBoolean instructions,
              tx_feePayer = Some walletPublicKey\<rparr>]))"
  by (simp add: sendInstructions_def foldl_tx_add Let_def split: sum.split)

text \<open>
  C4. When every entry of the instruction list is absent (the empty list included),
  \<open>sendInstructions\<close> fails with the error \<open>No instructions to send\<close>, whatever the
  submission collaborator would answer, and nothing is handed to that collaborator.
\<close>

theorem sendInstructions_all_absent:
  "\<forall>x \<in> set instructions. x = None \<Longrightarrow>
     sendInstructions sendAndConfirm walletPublicKey instructions =
       (Inl (Error ''No instructions to send''), [])"
  by (simp add: sendInstructions_unfold filterBoolean_empty_iff [THEN iffD2])

theorem sendInstructions_all_absent_witness:
  "sendInstructions (\<lambda>tx. Inr ''signature'') (PublicKey [1, 2, 3]) [None, None] =
       (Inl (Error ''No instructions to send''), []) \<and>
   sendInstructions (\<lambda>tx. Inr ''signature'') (PublicKey [1, 2, 3]) [] =
       (Inl (Error ''No instructions to send''), [])"
  using sendInstructions_all_absent [of "[None, None]" "\<lambda>tx. Inr ''signature''" "PublicKey [1, 2, 3]"]
    sendInstructions_all_absent [of "[]" "\<lambda>tx. Inr ''signature''" "PublicKey [1, 2, 3]"]
  by simp

text \<open>
  C5. When at least one entry of the instruction list is present, exactly one
  transaction is handed to the submission collaborator; its instructions are the present
  entries of the list in their order, and its fee payer is the wallet. In particular
  \<open>[undefined, ixA, undefined, ixB]\<close> is submitted as \<open>[ixA, ixB]\<close>.
\<close>

theorem sendInstructions_present_in_order:
  "((\<exists>ix. Some ix \<in> set instructions) \<longrightarrow>
     (\<exists>tx. snd (sendInstructions sendAndConfirm walletPublicKey instructions) = [tx] \<and>
           map Some (tx_instructions tx) = filter (\<lambda>x. x \<noteq> None) instructions \<and>
           tx_feePayer tx = Some walletPublicKey)) \<and>
   snd (sendInstructions sendAndConfirm walletPublicKey [None, Some ixA, None, Some ixB]) =
     [\<lparr>tx_instructions = [ixA, ixB], tx_feePayer = Some walletPublicKey\<rparr>]"
proof
  show "(\<exists>ix. Some ix \<in> set instructions) \<longrightarrow>
     (\<exists>tx. snd (sendInstructions sendAndConfirm walletPublicKey instructions) = [tx] \<and>
           map Some (tx_instructions tx) = filter (\<lambda>x. x \<noteq> None) instructions \<and>
           tx_feePayer tx = Some walletPublicKey)"
  proof
    assume "\<exists>ix. Some ix \<in> set instructions"
    then have ne: "filterBoolean instructions \<noteq> []"
      by (auto simp: filterBoolean_empty_iff)
    let ?tx = "\<lparr>tx_instructions = filterBoolean instructions, tx_feePayer = Some walletPublicKey\<rparr>"
    have "snd (sendInstructions sendAndConfirm walletPublicKey instructions) = [?tx]"
      using ne by (simp add: sendInstructions_unfold)
    moreover have "map Some (tx_instructions ?tx) = filter (\<lambda>x. x \<noteq> None) instructions"
      by (simp add: filterBoolean_present)
    ultimately show "\<exists>tx. snd (sendInstructions sendAndConfirm walletPublicKey instructions) = [tx] \<and>
           map Some (tx_instructions tx) = filter (\<lambda>x. x \<noteq> None) instructions \<and>
           tx_feePayer tx = Some walletPublicKey"
      by (intro exI [of _ ?tx]) simp
  qed
next
  show "snd (sendInstructions sendAndConfirm walletPublicKey [None, Some ixA, None, Some ixB]) =
     [\<lparr>tx_instructions = [ixA, ixB], tx_feePayer = Some walletPublicKey\<rparr>]"
    by (simp add: sendInstructions_unfold)
qed

theorem sendInstructions_present_in_order_witness:
  "(\<exists>ix. Some ix \<in> set [None, Some (MethodCall ''createPosition'' [] []), None,
        Some (MethodCall ''supply'' [Amount 5] [])]) \<and>
   (\<exists>tx. snd (sendInstructions (\<lambda>tx. Inr ''signature'') (PublicKey [7])
               [None, Some (MethodCall ''createPosition'' [] []), None,
                Some (MethodCall ''supply'' [Amount 5] [])]) = [tx] \<and>
         tx_instructions tx =
           [MethodCall ''createPosition'' [] [], MethodCall ''supply'' [Amount 5] []] \<and>
         tx_feePayer tx = Some (PublicKey [7]))"
  using sendInstructions_present_in_order
    [of "[None, Some (MethodCall ''createPosition'' [] []), None,
          Some (MethodCall ''supply'' [Amount 5] [])]"
        "\<lambda>tx. Inr ''signature''" "PublicKey [7]"
        "MethodCall ''createPosition'' [] []" "MethodCall ''supply'' [Amount 5] []"]
  by auto

subsection \<open>Token account resolution\<close>

text \<open>
  C10. For a mint account that exists, \<open>getTokenProgramId\<close> returns the Token-2022
  identifier exactly when the account's owner is that identifier, returns the classic
  token program identifier for every other owner, whether a token program or not, and
  never fails. (The two identifiers are distinct constants of the token library.)
\<close>

theorem getTokenProgramId_existing_mint:
  assumes "TOKEN_2022_PROGRAM_ID L \<noteq> TOKEN_PROGRAM_ID L" and "connection mint = Some info"
  shows "(getTokenProgramId L connection mint = Inr (TOKEN_2022_PROGRAM_ID L)
            \<longleftrightarrow> info_owner info = TOKEN_2022_PROGRAM_ID L) \<and>
         (info_owner info \<noteq> TOKEN_2022_PROGRAM_ID L
            \<longrightarrow> getTokenProgramId L connection mint = Inr (TOKEN_PROGRAM_ID L)) \<and>
         (\<exists>programId. getTokenProgramId L connection mint = Inr programId)"
  using assms by (auto simp: getTokenProgramId_def)

theorem getTokenProgramId_existing_mint_witness:
  "getTokenProgramId testLibrary testConnection (PublicKey [11]) = Inr (PublicKey [2]) \<and>
   getTokenProgramId testLibrary testConnection (PublicKey [10]) = Inr (PublicKey [1]) \<and>
   getTokenProgramId testLibrary testConnection (PublicKey [12]) = Inr (PublicKey [1])"
  using getTokenProgramId_existing_mint [of testLibrary testConnection "PublicKey [11]"
          "\<lparr>info_owner = PublicKey [2], info_data = []\<rparr>"]
        getTokenProgramId_existing_mint [of testLibrary testConnection "PublicKey [10]"
          "\<lparr>info_owner = PublicKey [1], info_data = []\<rparr>"]
        getTokenProgramId_existing_mint [of testLibrary testConnection "PublicKey [12]"
          "\<lparr>info_owner = PublicKey [0], info_data = []\<rparr>"]
  by (simp add: testLibrary_def testConnection_def)

text \<open>
  C6, as stated, fails: the mint \<open>[10]\<close> exists, yet resolution is refused for an owner
  that is a program-derived address (here a position account), because the address
  derivation is called with off-curve owners disallowed.
\<close>

theorem getOrCreateAtaIx_offcurve_counterexample:
  "\<not> ((\<exists>e. getOrCreateAtaIx testLibrary testConnection (PublicKey [20])
               (fst (getPositionPDA testLibrary [7] (PublicKey [21]))) (PublicKey [10]) = Inl e)
        \<longleftrightarrow> testConnection (PublicKey [10]) = None)"
  by (simp add: getOrCreateAtaIx_def getTokenProgramId_def getAssociatedTokenAddressSync_def
      getPositionPDA_def testLibrary_def testConnection_def)

text \<open>
  C6, amended. \<open>getOrCreateAtaIx\<close> fails exactly when the mint account does not exist
  or the owner is not on the curve. Otherwise it returns the associated token address
  derived from (owner, token program, mint) and the token program of the mint, with a
  creation instruction for (payer, address, owner, mint, token program) exactly when no
  account exists at that address, and with no instruction when one does.
\<close>

theorem getOrCreateAtaIx_outcome:
  "((\<exists>e. getOrCreateAtaIx L connection payer owner mint = Inl e)
      \<longleftrightarrow> (connection mint = None \<or> \<not> isOnCurve L owner)) \<and>
   (\<forall>info. connection mint = Some info \<and> isOnCurve L owner \<longrightarrow>
      (let tokenProgramId = (if info_owner info = TOKEN_2022_PROGRAM_ID L
                             then TOKEN_2022_PROGRAM_ID L else TOKEN_PROGRAM_ID L);
           ata = fst (findProgramAddressSync L
                   [toBuffer owner, toBuffer tokenProgramId, toBuffer mint]
                   (ASSOCIATED_TOKEN_PROGRAM_ID L))
       in getOrCreateAtaIx L connection payer owner mint =
            Inr \<lparr>ata_address = ata, ata_tokenProgramId = tokenProgramId,
                 ata_instruction =
                   (if connection ata = None
                    then Some (CreateAssociatedTokenAccount payer ata owner mint tokenProgramId
                                 (ASSOCIATED_TOKEN_PROGRAM_ID L))
                    else None)\<rparr>))"
  by (auto simp: getOrCreateAtaIx_def getTokenProgramId_def getAssociatedTokenAddressSync_def
      Let_def split: option.splits sum.splits)

theorem getOrCreateAtaIx_outcome_witness:
  "getOrCreateAtaIx testLibrary testConnection (PublicKey [20]) (PublicKey [21]) (PublicKey [10]) =
     Inr \<lparr>ata_address = PublicKey [255, 21, 1, 10], ata_tokenProgramId = PublicKey [1],
          ata_instruction = Some (CreateAssociatedTokenAccount (PublicKey [20])
             (PublicKey [255, 21, 1, 10]) (PublicKey [21]) (PublicKey [10]) (PublicKey [1]) (PublicKey [3]))\<rparr> \<and>
   getOrCreateAtaIx testLibrary testConnection (PublicKey [20]) (PublicKey [21]) (PublicKey [11]) =
     Inr \<lparr>ata_address = PublicKey [255, 21, 2, 11], ata_tokenProgramId = PublicKey [2],
          ata_instruction = None\<rparr> \<and>
   (\<exists>e. getOrCreateAtaIx testLibrary testConnection (PublicKey [20]) (PublicKey [21]) (PublicKey [13]) = Inl e) \<and>
   (\<exists>e. getOrCreateAtaIx testLibrary testConnection (PublicKey [20]) (PublicKey [255, 9]) (PublicKey [10]) = Inl e)"
proof -
  have curve: "isOnCurve testLibrary (PublicKey [21])"
    by (simp add: testLibrary_def)
  have offcurve: "\<not> isOnCurve testLibrary (PublicKey [255, 9])"
    by (simp add: testLibrary_def)
  have m10: "testConnection (PublicKey [10]) = Some \<lparr>info_owner = PublicKey [1], info_data = []\<rparr>"
    by (simp add: testConnection_def)
  have m11: "testConnection (PublicKey [11]) = Some \<lparr>info_owner = PublicKey [2], info_data = []\<rparr>"
    by (simp add: testConnection_def)
  have m13: "testConnection (PublicKey [13]) = None"
    by (simp add: testConnection_def)
  note a = getOrCreateAtaIx_outcome
    [of testLibrary testConnection "PublicKey [20]" "PublicKey [21]" "PublicKey [10]",
     THEN conjunct2, THEN spec, THEN mp, OF conjI [OF m10 curve]]
  note b = getOrCreateAtaIx_outcome
    [of testLibrary testConnection "PublicKey [20]" "PublicKey [21]" "PublicKey [11]",
     THEN conjunct2, THEN spec, THEN mp, OF conjI [OF m11 curve]]
  note c = getOrCreateAtaIx_outcome
    [of testLibrary testConnection "PublicKey [20]" "PublicKey [21]" "PublicKey [13]",
     THEN conjunct1, THEN iffD2, OF disjI1 [OF m13]]
  note d = getOrCreateAtaIx_outcome
    [of testLibrary testConnection "PublicKey [20]" "PublicKey [255, 9]" "PublicKey [10]",
     THEN conjunct1, THEN iffD2, OF disjI2 [OF offcurve]]
  have a': "getOrCreateAtaIx testLibrary testConnection (PublicKey [20]) (PublicKey [21]) (PublicKey [10]) =
     Inr \<lparr>ata_address = PublicKey [255, 21, 1, 10], ata_tokenProgramId = PublicKey [1],
          ata_instruction = Some (CreateAssociatedTokenAccount (PublicKey [20])
             (PublicKey [255, 21, 1, 10]) (PublicKey [21]) (PublicKey [10]) (PublicKey [1]) (PublicKey [3]))\<rparr>"
    using a by (simp add: testLibrary_def testConnection_def Let_def)
  have b': "getOrCreateAtaIx testLibrary testConnection (PublicKey [20]) (PublicKey [21]) (PublicKey [11]) =
     Inr \<lparr>ata_address = PublicKey [255, 21, 2, 11], ata_tokenProgramId = PublicKey [2],
          ata_instruction = None\<rparr>"
    using b by (simp add: testLibrary_def testConnection_def Let_def)
  from a' b' c d show ?thesis by blast
qed

subsection \<open>Market identifier\<close>

lemma littleEndian_Suc:
  "littleEndian (Suc k) n = word_of_nat n # littleEndian k (n div 256)"
proof -
  have "[0..<Suc k] = 0 # map Suc [0..<k]"
    by (simp add: upt_conv_Cons map_Suc_upt del: upt_Suc)
  then show ?thesis
    by (simp add: littleEndian_def comp_def div_mult2_eq del: upt_Suc)
qed

lemma littleEndian_zero: "littleEndian k 0 = replicate k 0"
  by (induction k) (simp_all add: littleEndian_Suc, simp add: littleEndian_def)

lemma byte_of_nat_mod: "(word_of_nat (n mod 256) :: byte) = word_of_nat n"
proof -
  have "(word_of_nat (n mod 2 ^ LENGTH(8)) :: byte) = word_of_nat n"
    by (rule word_of_nat_eq_iff [THEN iffD2]) (simp add: take_bit_eq_mod)
  then show ?thesis by simp
qed

lemma bytesLE_fits:
  "n < 256 ^ k \<Longrightarrow>
     length (bytesLE n) \<le> k \<and>
     bytesLE n @ replicate (k - length (bytesLE n)) 0 = littleEndian k n"
proof (induction k arbitrary: n)
  case 0
  then show ?case by (simp add: bytesLE.simps littleEndian_def)
next
  case (Suc k)
  show ?case
  proof (cases "n = 0")
    case True
    then show ?thesis by (simp add: bytesLE.simps littleEndian_zero)
  next
    case False
    from Suc.prems have "n div 256 < 256 ^ k" by (simp add: less_mult_imp_div_less)
    from Suc.IH [OF this] False show ?thesis
      by (simp add: bytesLE.simps [of n] littleEndian_Suc byte_of_nat_mod)
  qed
qed

lemma length_littleEndian: "length (littleEndian k n) = k"
  by (simp add: littleEndian_def)

lemma hexValue_hexDigit: "n < 16 \<Longrightarrow> hexValue (hexDigit n) = Some n"
proof -
  assume "n < 16"
  then have "n \<in> {0, 1, 2, 3, 4, 5, 6, 7, 8, 9, 10, 11, 12, 13, 14, 15}"
    by (simp only: insert_iff empty_iff) arith
  then show ?thesis
    by (auto simp: hexDigit_def hexValue_def)
qed

lemma Buffer_from_hex_toHex: "Buffer_from_hex (toHex bs) = bs"
proof (induction bs)
  case Nil
  show ?case by (simp add: toHex_def)
next
  case (Cons b bs)
  have hi: "unat b div 16 < 16"
    using unsigned_less [of b, where 'a = nat] by (simp add: less_mult_imp_div_less)
  have "toHex (b # bs) = hexDigit (unat b div 16) # hexDigit (unat b mod 16) # toHex bs"
    by (simp add: toHex_def)
  with Cons hi show ?case
    by (simp add: hexValue_hexDigit)
qed

lemma keccak256_roundtrip: "Buffer_from_hex (keccak256 L data) = keccak_256 L data"
  by (simp add: keccak256_def Buffer_from_hex_toHex)

lemma toArrayLike_le_8:
  assumes "magnitude b < 2 ^ 53"
  shows "toArrayLike_le b 8 = Inr (littleEndian 8 (magnitude b))"
proof -
  have "magnitude b < 256 ^ 8" using assms by simp
  from bytesLE_fits [OF this] show ?thesis
    by (simp add: toArrayLike_le_def byteLength_def)
qed

lemma unat_byte_of_nat: "unat (word_of_nat n :: byte) = n mod 256"
  by (simp add: unat_of_nat)

lemma littleEndian_value:
  "n < 256 ^ k \<Longrightarrow> (\<Sum>i<k. unat (littleEndian k n ! i) * 256 ^ i) = n"
proof (induction k arbitrary: n)
  case 0
  then show ?case by simp
next
  case (Suc k)
  from Suc.prems have small: "n div 256 < 256 ^ k" by (simp add: less_mult_imp_div_less)
  have "(\<Sum>i<Suc k. unat (littleEndian (Suc k) n ! i) * 256 ^ i) =
          unat (word_of_nat n :: byte) +
          (\<Sum>i<k. unat (littleEndian k (n div 256) ! i) * 256 ^ Suc i)"
    unfolding sum.lessThan_Suc_shift littleEndian_Suc by simp
  also have "(\<Sum>i<k. unat (littleEndian k (n div 256) ! i) * 256 ^ Suc i) =
          256 * (\<Sum>i<k. unat (littleEndian k (n div 256) ! i) * 256 ^ i)"
    by (simp add: sum_distrib_left mult_ac)
  also have "(\<Sum>i<k. unat (littleEndian k (n div 256) ! i) * 256 ^ i) = n div 256"
    by (rule Suc.IH [OF small])
  finally show ?case by (simp add: unat_byte_of_nat)
qed

lemma littleEndian_8_8500: "littleEndian 8 8500 = [52, 33, 0, 0, 0, 0, 0, 0]"
  by (simp add: littleEndian_def upt_conv_Cons)

text \<open>
  C1, as stated, fails: \<open>2^53\<close> is an integer a JavaScript number holds, and for it the
  big-number constructor's assertion throws, so no identifier is returned.
\<close>

theorem calculateMarketId_unsafe_integer_counterexample:
  "calculateMarketId testLibrary (PublicKey (replicate 32 1)) (PublicKey (replicate 32 2))
      (PublicKey (replicate 32 3)) (PublicKey (replicate 32 4)) 9007199254740992 =
     Inl (Error ''Assertion failed'') \<and>
   calculateMarketId testLibrary (PublicKey (replicate 32 1)) (PublicKey (replicate 32 2))
      (PublicKey (replicate 32 3)) (PublicKey (replicate 32 4)) 9007199254740992 \<noteq>
     Inr (keccak_256 testLibrary (replicate 32 1 @ replicate 32 2 @ replicate 32 3 @
            replicate 32 4 @ littleEndian 8 9007199254740992))"
  by (simp add: calculateMarketId_def BN_of_number_def)

text \<open>
  C1, amended. For every four public keys and every integer \<open>lltv\<close> of magnitude below
  \<open>2^53\<close>, \<open>calculateMarketId\<close> returns exactly the Keccak-256 digest of
  collateralMint || loanMint || oracle || irm || the magnitude of \<open>lltv\<close> as 8 bytes,
  least significant first (that is \<open>lltv\<close> itself when it is not negative); from \<open>2^53\<close>
  on it fails with the assertion of the big-number constructor. The 8 bytes denote
  the magnitude, byte \<open>i\<close> weighing \<open>256^i\<close>, and with keys of 32 bytes the hashed
  text has 136 bytes.
\<close>

theorem calculateMarketId_hash:
  "(\<bar>lltv\<bar> < 2 ^ 53 \<longrightarrow>
      calculateMarketId L collateralMint loanMint oracle irm lltv =
        Inr (keccak_256 L (toBuffer collateralMint @ toBuffer loanMint @ toBuffer oracle @
                           toBuffer irm @ littleEndian 8 (nat \<bar>lltv\<bar>))) \<and>
      (\<Sum>i<8. unat (littleEndian 8 (nat \<bar>lltv\<bar>) ! i) * 256 ^ i) = nat \<bar>lltv\<bar>) \<and>
   (2 ^ 53 \<le> \<bar>lltv\<bar> \<longrightarrow>
      calculateMarketId L collateralMint loanMint oracle irm lltv =
        Inl (Error ''Assertion failed'')) \<and>
   (length (toBuffer collateralMint) = 32 \<and> length (toBuffer loanMint) = 32 \<and>
    length (toBuffer oracle) = 32 \<and> length (toBuffer irm) = 32 \<longrightarrow>
      length (toBuffer collateralMint @ toBuffer loanMint @ toBuffer oracle @
              toBuffer irm @ littleEndian 8 (nat \<bar>lltv\<bar>)) = 136)"
proof (intro conjI impI)
  assume small: "\<bar>lltv\<bar> < 2 ^ 53"
  let ?bn = "\<lparr>negative = lltv < 0, magnitude = nat \<bar>lltv\<bar>\<rparr>"
  have bn: "BN_of_number lltv = Inr ?bn"
    using small by (auto simp: BN_of_number_def Let_def abs_if)
  have m: "magnitude ?bn < 2 ^ 53" using small by (simp add: nat_less_iff)
  then have "toArrayLike_le ?bn 8 = Inr (littleEndian 8 (magnitude ?bn))"
    by (rule toArrayLike_le_8)
  with bn show "calculateMarketId L collateralMint loanMint oracle irm lltv =
        Inr (keccak_256 L (toBuffer collateralMint @ toBuffer loanMint @ toBuffer oracle @
                           toBuffer irm @ littleEndian 8 (nat \<bar>lltv\<bar>)))"
    by (simp add: calculateMarketId_def keccak256_roundtrip)
  from m have "nat \<bar>lltv\<bar> < 256 ^ 8" by simp
  then show "(\<Sum>i<8. unat (littleEndian 8 (nat \<bar>lltv\<bar>) ! i) * 256 ^ i) = nat \<bar>lltv\<bar>"
    by (rule littleEndian_value)
next
  assume "2 ^ 53 \<le> \<bar>lltv\<bar>"
  then have "BN_of_number lltv = Inl (Error ''Assertion failed'')"
    by (auto simp: BN_of_number_def Let_def abs_if)
  then show "calculateMarketId L collateralMint loanMint oracle irm lltv =
        Inl (Error ''Assertion failed'')"
    by (simp add: calculateMarketId_def)
next
  assume "length (toBuffer collateralMint) = 32 \<and> length (toBuffer loanMint) = 32 \<and>
    length (toBuffer oracle) = 32 \<and> length (toBuffer irm) = 32"
  then show "length (toBuffer collateralMint @ toBuffer loanMint @ toBuffer oracle @
              toBuffer irm @ littleEndian 8 (nat \<bar>lltv\<bar>)) = 136"
    by (simp add: length_littleEndian)
qed

theorem calculateMarketId_hash_witness:
  "calculateMarketId testLibrary (PublicKey (replicate 32 1)) (PublicKey (replicate 32 2))
      (PublicKey (replicate 32 3)) (PublicKey (replicate 32 4)) 8500 =
     Inr (keccak_256 testLibrary (replicate 32 1 @ replicate 32 2 @ replicate 32 3 @
            replicate 32 4 @ [52, 33, 0, 0, 0, 0, 0, 0])) \<and>
   calculateMarketId testLibrary (PublicKey (replicate 32 1)) (PublicKey (replicate 32 2))
      (PublicKey (replicate 32 3)) (PublicKey (replicate 32 4)) 9007199254740992 =
     Inl (Error ''Assertion failed'') \<and>
   length (replicate 32 (1::byte) @ replicate 32 2 @ replicate 32 3 @
            replicate 32 4 @ littleEndian 8 8500) = 136"
  using calculateMarketId_hash [of 8500 testLibrary "PublicKey (replicate 32 1)"
          "PublicKey (replicate 32 2)" "PublicKey (replicate 32 3)" "PublicKey (replicate 32 4)"]
        calculateMarketId_hash [of 9007199254740992 testLibrary "PublicKey (replicate 32 1)"
          "PublicKey (replicate 32 2)" "PublicKey (replicate 32 3)" "PublicKey (replicate 32 4)"]
  by (simp add: littleEndian_8_8500)

subsection \<open>Failure diagnostics\<close>

lemma includesStr_set: "includesStr s p \<Longrightarrow> set p \<subseteq> set s"
proof (induction s)
  case Nil
  then show ?case by simp
next
  case (Cons c s)
  from Cons.prems consider "prefix p (c # s)" | "includesStr s p" by auto
  then show ?case
  proof cases
    case 1
    then show ?thesis by (rule set_mono_prefix)
  next
    case 2
    with Cons.IH show ?thesis by auto
  qed
qed

lemma trim_Nil_iff: "trim t = [] \<longleftrightarrow> (\<forall>c \<in> set t. isWhiteSpace c)"
proof
  assume "trim t = []"
  then have "\<forall>c \<in> set (dropWhile isWhiteSpace t). isWhiteSpace c"
    by (simp add: trim_def)
  then have "dropWhile isWhiteSpace t = []"
    by (metis hd_dropWhile hd_in_set)
  then show "\<forall>c \<in> set t. isWhiteSpace c"
    by simp
next
  assume "\<forall>c \<in> set t. isWhiteSpace c"
  then have d: "dropWhile isWhiteSpace t = []" by simp
  show "trim t = []" unfolding trim_def d by simp
qed

lemma set_dropWhile_keeps: "c \<in> set r \<Longrightarrow> \<not> P c \<Longrightarrow> c \<in> set (dropWhile P r)"
  by (induction r) auto

lemma cleanLine_nonempty:
  assumes "c \<in> set line" and "\<not> isWhiteSpace c" and "c \<notin> set ''Program log:''"
  shows "cleanLine line \<noteq> []"
proof -
  have "c \<in> set (stripProgramLog line)"
  proof (cases "prefix ''Program log:'' line")
    case True
    then obtain r where r: "line = ''Program log:'' @ r" by (auto simp: prefix_def)
    with assms have "c \<in> set r" by auto
    then have "c \<in> set (dropWhile isWhiteSpace r)"
      using assms(2) by (rule set_dropWhile_keeps)
    with True r show ?thesis by (simp add: stripProgramLog_def)
  next
    case False
    with assms show ?thesis by (simp add: stripProgramLog_def)
  qed
  with assms(2) show ?thesis
    unfolding cleanLine_def trim_Nil_iff by blast
qed

lemma capital_I: "\<not> isWhiteSpace CHR ''I''" "CHR ''I'' \<notin> set ''Program log:''"
  and capital_E: "\<not> isWhiteSpace CHR ''E''" "CHR ''E'' \<notin> set ''Program log:''"
  and small_c: "\<not> isWhiteSpace CHR ''c''" "CHR ''c'' \<notin> set ''Program log:''"
  by (simp_all add: isWhiteSpace_def)

lemma mentionsInstruction_clean: "mentionsInstruction line \<Longrightarrow> cleanLine line \<noteq> []"
proof -
  assume "mentionsInstruction line"
  then have "CHR ''I'' \<in> set line"
    unfolding mentionsInstruction_def by (auto dest!: includesStr_set)
  then show ?thesis by (rule cleanLine_nonempty) (rule capital_I)+
qed

lemma mentionsError_clean: "mentionsError line \<Longrightarrow> cleanLine line \<noteq> []"
proof -
  assume "mentionsError line"
  then consider "CHR ''E'' \<in> set line" | "CHR ''c'' \<in> set line"
    unfolding mentionsError_def by (auto dest!: includesStr_set)
  then show ?thesis
  proof cases
    case 1
    then show ?thesis by (rule cleanLine_nonempty) (rule capital_E)+
  next
    case 2
    then show ?thesis by (rule cleanLine_nonempty) (rule small_c)+
  qed
qed

lemma includesStr_nonempty: "includesStr s p \<Longrightarrow> p \<noteq> [] \<Longrightarrow> s \<noteq> []"
  by (cases s) auto

lemma find_cases:
  obtains (absent) "find P ls = None" "\<forall>x \<in> set ls. \<not> P x"
        | (found) x where "find P ls = Some x" "x \<in> set ls" "P x"
proof (cases "find P ls")
  case None
  then have "\<forall>x \<in> set ls. \<not> P x" by (simp add: find_None_iff)
  with None show ?thesis by (rule absent)
next
  case (Some x)
  then have "x \<in> set ls" "P x" by (auto simp: find_Some_iff)
  with Some show ?thesis by (rule found)
qed

lemma truthy_find:
  assumes "\<And>x. P x \<Longrightarrow> x \<noteq> []"
  shows "truthy (find P ls) \<longleftrightarrow> (\<exists>x \<in> set ls. P x)"
proof (cases rule: find_cases [of P ls])
  case absent
  then show ?thesis by (simp add: truthy_def)
next
  case (found x)
  with assms [of x] show ?thesis by (auto simp: truthy_def)
qed

lemma present_find: "\<forall>l \<in> set (present (find P ls)). l \<in> set ls \<and> P l"
proof (cases rule: find_cases [of P ls])
  case absent
  then show ?thesis by (simp add: present_def truthy_def)
next
  case (found x)
  then show ?thesis by (simp add: present_def truthy_def)
qed

lemma present_orElse: "present (orElse a b) = (if truthy a then present a else present b)"
  by (simp add: present_def orElse_def)

lemma truthy_orElse: "truthy (orElse a b) \<longleftrightarrow> truthy a \<or> truthy b"
  by (simp add: orElse_def)

lemma present_Nil_iff: "present x = [] \<longleftrightarrow> \<not> truthy x"
  by (simp add: present_def)

lemma join_nonempty: "ps \<noteq> [] \<Longrightarrow> hd ps \<noteq> [] \<Longrightarrow> join sep ps \<noteq> []"
  by (cases "(sep, ps)" rule: join.cases) auto

lemma formatTxLogSummary_present:
  "formatTxLogSummary (Some ls) =
     (let lines = present (find mentionsInstruction ls) @
                  present (orElse
                             (orElse (find (\<lambda>line. includesStr line ''AnchorError'') ls)
                                (find (\<lambda>line. includesStr line ''Error Code'') ls))
                             (find (\<lambda>line. includesStr line ''custom program error'') ls))
      in if ls = [] \<or> lines = [] then None else Some (join '' | '' (map cleanLine lines)))"
  unfolding formatTxLogSummary_def Let_def mentionsInstruction_def [abs_def] cleanLine_def [abs_def]
  by (simp add: present_def)

lemma instruction_nonempty: "mentionsInstruction x \<Longrightarrow> x \<noteq> []"
  using includesStr_nonempty [of x "''Program log: Instruction:''"]
  by (simp add: mentionsInstruction_def)

lemma firstMatch_cases:
  obtains (absent) "firstMatch P ls = []" "\<forall>x \<in> set ls. \<not> P x"
        | (found) x where "firstMatch P ls = [x]" "x \<in> set ls" "P x"
proof (cases rule: find_cases [of P ls])
  case absent
  then have fm: "firstMatch P ls = []" by (simp add: firstMatch_def)
  show ?thesis by (rule that(1) [OF fm absent(2)])
next
  case (found x)
  then have fm: "firstMatch P ls = [x]" by (simp add: firstMatch_def)
  show ?thesis by (rule that(2) [OF fm found(2,3)])
qed

lemma firstMatch_Nil_iff: "firstMatch P ls = [] \<longleftrightarrow> (\<forall>x \<in> set ls. \<not> P x)"
  by (cases rule: firstMatch_cases [of P ls]) auto

lemma firstMatch_members: "\<forall>l \<in> set (firstMatch P ls). l \<in> set ls \<and> P l"
  by (cases rule: firstMatch_cases [of P ls]) auto

lemma present_find_firstMatch:
  assumes "\<And>x. P x \<Longrightarrow> x \<noteq> []"
  shows "present (find P ls) = firstMatch P ls"
proof (cases rule: find_cases [of P ls])
  case absent
  then show ?thesis by (simp add: present_def truthy_def firstMatch_def)
next
  case (found x)
  with assms [of x] show ?thesis by (simp add: present_def truthy_def firstMatch_def)
qed

lemma present_orElse_chain:
  "present (orElse (orElse a b) c) =
     (if present a \<noteq> [] then present a else if present b \<noteq> [] then present b else present c)"
  by (simp add: present_orElse truthy_orElse present_Nil_iff)

lemma errorLine_present:
  "present (orElse
              (orElse (find (\<lambda>line. includesStr line ''AnchorError'') ls)
                 (find (\<lambda>line. includesStr line ''Error Code'') ls))
              (find (\<lambda>line. includesStr line ''custom program error'') ls)) = errorLine ls"
proof -
  have ne: "\<And>x. includesStr x ''AnchorError'' \<Longrightarrow> x \<noteq> []"
    "\<And>x. includesStr x ''Error Code'' \<Longrightarrow> x \<noteq> []"
    "\<And>x. includesStr x ''custom program error'' \<Longrightarrow> x \<noteq> []"
    by (auto dest: includesStr_nonempty)
  have a: "present (find (\<lambda>line. includesStr line ''AnchorError'') ls) =
             firstMatch (\<lambda>line. includesStr line ''AnchorError'') ls"
    by (rule present_find_firstMatch) (rule ne(1))
  have b: "present (find (\<lambda>line. includesStr line ''Error Code'') ls) =
             firstMatch (\<lambda>line. includesStr line ''Error Code'') ls"
    by (rule present_find_firstMatch) (rule ne(2))
  have c: "present (find (\<lambda>line. includesStr line ''custom program error'') ls) =
             firstMatch (\<lambda>line. includesStr line ''custom program error'') ls"
    by (rule present_find_firstMatch) (rule ne(3))
  show ?thesis
    by (simp only: present_orElse_chain errorLine_def a b c)
qed

lemma summaryLines_Nil: "summaryLines [] = []"
  by (simp add: summaryLines_def errorLine_def firstMatch_def)

lemma formatTxLogSummary_exact:
  "formatTxLogSummary (Some ls) =
     (if summaryLines ls = [] then None
      else Some (join '' | '' (map cleanLine (summaryLines ls))))"
proof -
  have "present (find mentionsInstruction ls) = firstMatch mentionsInstruction ls"
    by (rule present_find_firstMatch) (rule instruction_nonempty)
  then have "formatTxLogSummary (Some ls) =
     (if ls = [] \<or> summaryLines ls = [] then None
      else Some (join '' | '' (map cleanLine (summaryLines ls))))"
    unfolding formatTxLogSummary_present errorLine_present summaryLines_def Let_def by simp
  then show ?thesis using summaryLines_Nil by auto
qed

lemma errorLine_members: "\<forall>l \<in> set (errorLine ls). l \<in> set ls \<and> mentionsError l"
  using firstMatch_members [of "\<lambda>line. includesStr line ''AnchorError''" ls]
    firstMatch_members [of "\<lambda>line. includesStr line ''Error Code''" ls]
    firstMatch_members [of "\<lambda>line. includesStr line ''custom program error''" ls]
  by (simp add: errorLine_def mentionsError_def)

lemma errorLine_Nil_iff: "errorLine ls = [] \<longleftrightarrow> (\<forall>l \<in> set ls. \<not> mentionsError l)"
  by (auto simp: errorLine_def mentionsError_def firstMatch_Nil_iff)

lemma summaryLines_members:
  "\<forall>l \<in> set (summaryLines ls). l \<in> set ls \<and> (mentionsInstruction l \<or> mentionsError l)"
  using firstMatch_members [of mentionsInstruction ls] errorLine_members [of ls]
  by (auto simp: summaryLines_def)

lemma summaryLines_Nil_iff:
  "summaryLines ls = [] \<longleftrightarrow> \<not> (\<exists>l \<in> set ls. mentionsInstruction l \<or> mentionsError l)"
  by (auto simp: summaryLines_def firstMatch_Nil_iff errorLine_Nil_iff)

lemma summary_nonempty:
  assumes "lines \<noteq> []" and "\<forall>l \<in> set lines. mentionsInstruction l \<or> mentionsError l"
  shows "join '' | '' (map cleanLine lines) \<noteq> []"
proof -
  from assms have "mentionsInstruction (hd lines) \<or> mentionsError (hd lines)" by simp
  then have "cleanLine (hd lines) \<noteq> []"
    by (auto dest: mentionsInstruction_clean mentionsError_clean)
  with assms(1) show ?thesis by (intro join_nonempty) (simp_all add: hd_map)
qed

lemma setMessage_same: "setMessage (message err) err = err"
  by (cases err) simp_all

lemma logsOf_setMessage: "logsOf (setMessage m err) = logsOf err"
  by (cases err rule: logsOf.cases) simp_all

lemma getLogsRejection_setMessage: "getLogsRejection (setMessage m err) = getLogsRejection err"
  by (cases err rule: logsOf.cases) simp_all

lemma instanceofError_setMessage: "instanceofError (setMessage m err) = instanceofError err"
  by (cases err) simp_all

lemma message_setMessage: "instanceofError err \<Longrightarrow> message (setMessage m err) = m"
  by (cases err) simp_all

lemma annotate_kept:
  "logsOf (annotate err) = logsOf err \<and>
   instanceofError (annotate err) = instanceofError err \<and>
   getLogsRejection (annotate err) = getLogsRejection err \<and>
   prefix (message err) (message (annotate err))"
  by (simp add: annotate_def Let_def logsOf_setMessage instanceofError_setMessage
      getLogsRejection_setMessage message_setMessage)

lemma annotate_no_logs: "logsOf err = None \<Longrightarrow> annotate err = err"
  by (simp add: annotate_def formatTxLogSummary_def truthy_def)

lemma annotate_not_Error: "\<not> instanceofError err \<Longrightarrow> annotate err = err"
  by (simp add: annotate_def)

lemma annotate_no_match:
  assumes "logsOf err = Some ls" and "summaryLines ls = []"
  shows "annotate err = err"
  using assms by (simp add: annotate_def formatTxLogSummary_exact truthy_def)

lemma annotate_match:
  assumes "logsOf err = Some ls" and "summaryLines ls \<noteq> []" and "instanceofError err"
  shows "annotate err =
           setMessage
             (if includesStr (message err) (join '' | '' (map cleanLine (summaryLines ls)))
              then message err
              else message err @ '' | '' @ join '' | '' (map cleanLine (summaryLines ls))) err"
proof -
  have "\<forall>l \<in> set (summaryLines ls). mentionsInstruction l \<or> mentionsError l"
    using summaryLines_members [of ls] by blast
  with assms(2) have "join '' | '' (map cleanLine (summaryLines ls)) \<noteq> []"
    by (rule summary_nonempty)
  with assms show ?thesis
    by (simp add: annotate_def formatTxLogSummary_exact truthy_def setMessage_same)
qed

lemma rethrow_obtained: "getLogsRejection err = None \<Longrightarrow> rethrow err = annotate err"
  by (simp add: rethrow_def)

lemmas eval_logs = formatTxLogSummary_def annotate_def rethrow_def truthy_def orElse_def
  stripProgramLog_def trim_def isWhiteSpace_def Let_def

text \<open>
  C7, as stated, fails: the rejection carries a log line naming the instruction, its
  logs are obtained, the summary is \<open>Instruction: Supply\<close>, and yet nothing is appended,
  because the message of the error already contains that summary.
\<close>

theorem sendInstructions_summary_present_counterexample:
  "formatTxLogSummary (Some [''Program log: Instruction: Supply'']) = Some ''Instruction: Supply'' \<and>
   fst (sendInstructions
          (\<lambda>tx. Inl (SendTransactionError ''Failed at Instruction: Supply''
                        (Inr [''Program log: Instruction: Supply''])))
          (PublicKey [21]) [Some testIx]) =
     Inl (SendTransactionError ''Failed at Instruction: Supply''
            (Inr [''Program log: Instruction: Supply''])) \<and>
   fst (sendInstructions
          (\<lambda>tx. Inl (SendTransactionError ''Failed at Instruction: Supply''
                        (Inr [''Program log: Instruction: Supply''])))
          (PublicKey [21]) [Some testIx]) \<noteq>
     Inl (SendTransactionError (''Failed at Instruction: Supply'' @ '' | '' @ ''Instruction: Supply'')
            (Inr [''Program log: Instruction: Supply'']))"
  by (simp add: sendInstructions_unfold eval_logs)

text \<open>
  C7, amended. Let submission fail with a thrown value whose logs are obtained (for a
  \<open>SendTransactionError\<close>: \<open>getLogs\<close> resolves). Then \<open>sendInstructions\<close> rethrows the
  same value: the same kind, the same logs, and a message of which the original message
  is a prefix. If it is an \<open>Error\<close> whose logs contain a line naming the instruction or a
  line matching an error pattern, the summary is the first line naming the instruction
  (if any) followed by the error line (the first with \<open>AnchorError\<close>, else the first with
  \<open>Error Code\<close>, else the first with \<open>custom program error\<close>, if any), each cleaned, joined
  with \<open>' | '\<close>; it is not empty, and it is appended to the message after \<open>' | '\<close> unless
  the message already contains it, in which case the message is unchanged. If no log
  line matches, or the thrown value is not an \<open>Error\<close>, it is rethrown unchanged.
\<close>

theorem sendInstructions_failure_annotated:
  assumes "filterBoolean instructions \<noteq> []"
    and "sendAndConfirm \<lparr>tx_instructions = filterBoolean instructions,
                         tx_feePayer = Some walletPublicKey\<rparr> = Inl err"
    and "getLogsRejection err = None"
  shows "\<exists>thrown.
      fst (sendInstructions sendAndConfirm walletPublicKey instructions) = Inl thrown \<and>
      logsOf thrown = logsOf err \<and> instanceofError thrown = instanceofError err \<and>
      getLogsRejection thrown = None \<and>
      prefix (message err) (message thrown) \<and>
      (\<forall>ls. instanceofError err \<and> logsOf err = Some ls \<and>
            (\<exists>l \<in> set ls. mentionsInstruction l \<or> mentionsError l) \<longrightarrow>
         summaryLines ls \<noteq> [] \<and>
         join '' | '' (map cleanLine (summaryLines ls)) \<noteq> [] \<and>
         thrown =
           setMessage
             (if includesStr (message err) (join '' | '' (map cleanLine (summaryLines ls)))
              then message err
              else message err @ '' | '' @ join '' | '' (map cleanLine (summaryLines ls))) err) \<and>
      (\<not> instanceofError err \<or>
       \<not> (\<exists>ls. logsOf err = Some ls \<and> (\<exists>l \<in> set ls. mentionsInstruction l \<or> mentionsError l)) \<longrightarrow>
         thrown = err)"
proof -
  have sent: "fst (sendInstructions sendAndConfirm walletPublicKey instructions) = Inl (annotate err)"
    using assms by (simp add: sendInstructions_unfold rethrow_obtained)
  have kept: "logsOf (annotate err) = logsOf err \<and>
      instanceofError (annotate err) = instanceofError err \<and>
      getLogsRejection (annotate err) = None \<and>
      prefix (message err) (message (annotate err))"
    using annotate_kept [of err] assms(3) by simp
  have matched: "\<forall>ls. instanceofError err \<and> logsOf err = Some ls \<and>
            (\<exists>l \<in> set ls. mentionsInstruction l \<or> mentionsError l) \<longrightarrow>
         summaryLines ls \<noteq> [] \<and>
         join '' | '' (map cleanLine (summaryLines ls)) \<noteq> [] \<and>
         annotate err =
           setMessage
             (if includesStr (message err) (join '' | '' (map cleanLine (summaryLines ls)))
              then message err
              else message err @ '' | '' @ join '' | '' (map cleanLine (summaryLines ls))) err"
  proof (intro allI impI)
    fix ls
    assume h: "instanceofError err \<and> logsOf err = Some ls \<and>
            (\<exists>l \<in> set ls. mentionsInstruction l \<or> mentionsError l)"
    then have ne: "summaryLines ls \<noteq> []" by (simp add: summaryLines_Nil_iff)
    have "\<forall>l \<in> set (summaryLines ls). mentionsInstruction l \<or> mentionsError l"
      using summaryLines_members [of ls] by blast
    with ne have s: "join '' | '' (map cleanLine (summaryLines ls)) \<noteq> []"
      by (rule summary_nonempty)
    from h ne have "annotate err =
           setMessage
             (if includesStr (message err) (join '' | '' (map cleanLine (summaryLines ls)))
              then message err
              else message err @ '' | '' @ join '' | '' (map cleanLine (summaryLines ls))) err"
      by (intro annotate_match) simp_all
    with ne s show "summaryLines ls \<noteq> [] \<and>
         join '' | '' (map cleanLine (summaryLines ls)) \<noteq> [] \<and>
         annotate err =
           setMessage
             (if includesStr (message err) (join '' | '' (map cleanLine (summaryLines ls)))
              then message err
              else message err @ '' | '' @ join '' | '' (map cleanLine (summaryLines ls))) err"
      by blast
  qed
  have unmatched: "\<not> instanceofError err \<or>
       \<not> (\<exists>ls. logsOf err = Some ls \<and> (\<exists>l \<in> set ls. mentionsInstruction l \<or> mentionsError l)) \<longrightarrow>
         annotate err = err"
  proof
    assume h: "\<not> instanceofError err \<or>
       \<not> (\<exists>ls. logsOf err = Some ls \<and> (\<exists>l \<in> set ls. mentionsInstruction l \<or> mentionsError l))"
    show "annotate err = err"
    proof (cases "instanceofError err")
      case False
      then show ?thesis by (rule annotate_not_Error)
    next
      case True
      show ?thesis
      proof (cases "logsOf err")
        case None
        then show ?thesis by (rule annotate_no_logs)
      next
        case (Some ls)
        with h True have "summaryLines ls = []" by (simp add: summaryLines_Nil_iff)
        with Some show ?thesis by (rule annotate_no_match)
      qed
    qed
  qed
  from sent kept matched unmatched show ?thesis by blast
qed

theorem sendInstructions_failure_annotated_witness:
  "fst (sendInstructions
          (\<lambda>tx. Inl (SendTransactionError ''failed''
                        (Inr [''Program log: Error Code: Paused'',
                              ''Program log: AnchorError: Paused'',
                              ''Program log: Instruction: Supply''])))
          (PublicKey [21]) [Some testIx]) =
     Inl (SendTransactionError ''failed | Instruction: Supply | AnchorError: Paused''
            (Inr [''Program log: Error Code: Paused'',
                  ''Program log: AnchorError: Paused'',
                  ''Program log: Instruction: Supply''])) \<and>
   fst (sendInstructions
          (\<lambda>tx. Inl (ErrorWithLogs ''failed'' (Some [''Program 11111 invoke [1]''])))
          (PublicKey [21]) [Some testIx]) =
     Inl (ErrorWithLogs ''failed'' (Some [''Program 11111 invoke [1]'']))"
proof -
  let ?ls = "[''Program log: Error Code: Paused'', ''Program log: AnchorError: Paused'',
              ''Program log: Instruction: Supply'']"
  let ?err = "SendTransactionError ''failed'' (Inr ?ls)"
  let ?plain = "ErrorWithLogs ''failed'' (Some [''Program 11111 invoke [1]''])"
  have ne: "filterBoolean [Some testIx] \<noteq> []" by simp
  have rej: "(\<lambda>tx. Inl ?err) \<lparr>tx_instructions = filterBoolean [Some testIx],
                                tx_feePayer = Some (PublicKey [21])\<rparr> = Inl ?err" by simp
  have rej': "(\<lambda>tx. Inl ?plain) \<lparr>tx_instructions = filterBoolean [Some testIx],
                                tx_feePayer = Some (PublicKey [21])\<rparr> = Inl ?plain" by simp
  have got: "getLogsRejection ?err = None" and got': "getLogsRejection ?plain = None"
    by simp_all
  from sendInstructions_failure_annotated [OF ne rej got]
  obtain thrown where t:
      "fst (sendInstructions (\<lambda>tx. Inl ?err) (PublicKey [21]) [Some testIx]) = Inl thrown"
    and m: "\<forall>ls. instanceofError ?err \<and> logsOf ?err = Some ls \<and>
            (\<exists>l \<in> set ls. mentionsInstruction l \<or> mentionsError l) \<longrightarrow>
         thrown =
           setMessage
             (if includesStr (message ?err) (join '' | '' (map cleanLine (summaryLines ls)))
              then message ?err
              else message ?err @ '' | '' @ join '' | '' (map cleanLine (summaryLines ls))) ?err"
    by blast
  have "mentionsInstruction ''Program log: Instruction: Supply''"
    by (simp add: mentionsInstruction_def)
  then have hyp: "instanceofError ?err \<and> logsOf ?err = Some ?ls \<and>
            (\<exists>l \<in> set ?ls. mentionsInstruction l \<or> mentionsError l)" by simp
  have lines: "summaryLines ?ls =
      [''Program log: Instruction: Supply'', ''Program log: AnchorError: Paused'']"
    by (simp add: summaryLines_def errorLine_def firstMatch_def mentionsInstruction_def)
  have summary: "join '' | '' (map cleanLine
      [''Program log: Instruction: Supply'', ''Program log: AnchorError: Paused'']) =
      ''Instruction: Supply | AnchorError: Paused''"
    by (simp add: cleanLine_def stripProgramLog_def trim_def isWhiteSpace_def)
  from m [rule_format, OF hyp] have
    "thrown = SendTransactionError ''failed | Instruction: Supply | AnchorError: Paused'' (Inr ?ls)"
    unfolding lines summary by simp
  with t have a: "fst (sendInstructions (\<lambda>tx. Inl ?err) (PublicKey [21]) [Some testIx]) =
      Inl (SendTransactionError ''failed | Instruction: Supply | AnchorError: Paused'' (Inr ?ls))"
    by simp
  from sendInstructions_failure_annotated [OF ne rej' got']
  obtain thrown' where t':
      "fst (sendInstructions (\<lambda>tx. Inl ?plain) (PublicKey [21]) [Some testIx]) = Inl thrown'"
    and u: "\<not> instanceofError ?plain \<or>
       \<not> (\<exists>ls. logsOf ?plain = Some ls \<and> (\<exists>l \<in> set ls. mentionsInstruction l \<or> mentionsError l)) \<longrightarrow>
         thrown' = ?plain"
    by blast
  have "\<not> (\<exists>ls. logsOf ?plain = Some ls \<and> (\<exists>l \<in> set ls. mentionsInstruction l \<or> mentionsError l))"
    by (simp add: mentionsInstruction_def mentionsError_def)
  with u have "thrown' = ?plain" by blast
  with t' have b: "fst (sendInstructions (\<lambda>tx. Inl ?plain) (PublicKey [21]) [Some testIx]) =
      Inl ?plain" by simp
  from a b show ?thesis by blast
qed

text \<open>
  Outside the amended claim: when the caught error is a \<open>SendTransactionError\<close> whose
  \<open>getLogs\<close> rejects, what \<open>sendInstructions\<close> throws is that rejection, and the error
  caught is lost with its message.
\<close>

lemma sendInstructions_getLogs_rejects:
  assumes "filterBoolean instructions \<noteq> []"
    and "sendAndConfirm \<lparr>tx_instructions = filterBoolean instructions,
                         tx_feePayer = Some walletPublicKey\<rparr> =
           Inl (SendTransactionError m (Inl rejection))"
  shows "fst (sendInstructions sendAndConfirm walletPublicKey instructions) = Inl rejection"
  using assms by (simp add: sendInstructions_unfold rethrow_def)

subsection \<open>The supply action\<close>

lemma getOrCreateAtaIx_resolved:
  assumes "connection mint = Some info" and "isOnCurve L owner"
  shows "getOrCreateAtaIx L connection payer owner mint =
     (let tokenProgramId = (if info_owner info = TOKEN_2022_PROGRAM_ID L
                            then TOKEN_2022_PROGRAM_ID L else TOKEN_PROGRAM_ID L);
          ata = fst (findProgramAddressSync L
                  [toBuffer owner, toBuffer tokenProgramId, toBuffer mint]
                  (ASSOCIATED_TOKEN_PROGRAM_ID L))
      in Inr \<lparr>ata_address = ata, ata_tokenProgramId = tokenProgramId,
              ata_instruction =
                (if connection ata = None
                 then Some (CreateAssociatedTokenAccount payer ata owner mint tokenProgramId
                              (ASSOCIATED_TOKEN_PROGRAM_ID L))
                 else None)\<rparr>)"
  using assms
  by (auto simp: getOrCreateAtaIx_def getTokenProgramId_def getAssociatedTokenAddressSync_def
      Let_def split: option.splits)

lemma parse_100: "parseTokenAmount ''100.00'' 6 = Inr 100000000"
  by (simp add: eval_parse)

lemma parse_0: "parseIntegerAmount ''0'' = Inr 0"
  by (simp add: eval_parse)

text \<open>
  C3. A connected user types \<open>100.00\<close> for a loan asset with 6 decimals whose mint
  exists, and has no position in the market. Then exactly one transaction is handed to
  the submission collaborator, with the wallet as fee payer and the instructions, in
  this order: creation of the associated token account (left out when that account
  exists), \<open>createPosition\<close>, and \<open>supply(marketId, 100000000, 0)\<close>.
\<close>

theorem handleSupply_first_supply:
  assumes "connection (market_loanMint market) = Some mintInfo"
    and "isOnCurve L walletPublicKey"
    and "market_loanDecimals market = 6"
    and "connection (fst (getPositionPDA L marketId walletPublicKey)) = None"
  shows
    "(let tokenProgramId = (if info_owner mintInfo = TOKEN_2022_PROGRAM_ID L
                            then TOKEN_2022_PROGRAM_ID L else TOKEN_PROGRAM_ID L);
          ata = fst (findProgramAddressSync L
                  [toBuffer walletPublicKey, toBuffer tokenProgramId,
                   toBuffer (market_loanMint market)]
                  (ASSOCIATED_TOKEN_PROGRAM_ID L));
          positionPda = fst (getPositionPDA L marketId walletPublicKey);
          createAta = CreateAssociatedTokenAccount walletPublicKey ata walletPublicKey
                        (market_loanMint market) tokenProgramId (ASSOCIATED_TOKEN_PROGRAM_ID L);
          createPosition = MethodCall ''createPosition'' [Bytes marketId]
                [(''payer'', walletPublicKey), (''owner'', walletPublicKey),
                 (''market'', marketKey), (''position'', positionPda),
                 (''systemProgram'', SystemProgram_programId L)];
          supply = MethodCall ''supply'' [Bytes marketId, Amount 100000000, Amount 0]
                [(''supplier'', walletPublicKey),
                 (''protocolState'', fst (getProtocolStatePDA L)),
                 (''market'', marketKey),
                 (''position'', positionPda),
                 (''onBehalfOf'', walletPublicKey),
                 (''supplierTokenAccount'', ata),
                 (''loanVault'', fst (getLoanVaultPDA L marketId)),
                 (''loanMint'', market_loanMint market),
                 (''tokenProgram'', tokenProgramId)]
      in snd (handleSupply L connection sendAndConfirm (Some walletPublicKey) ''100.00''
                market marketId marketKey) =
           [\<lparr>tx_instructions =
                (if connection ata = None then [createAta, createPosition, supply]
                 else [createPosition, supply]),
              tx_feePayer = Some walletPublicKey\<rparr>])"
proof -
  note ata = getOrCreateAtaIx_resolved
    [of connection "market_loanMint market" mintInfo L walletPublicKey walletPublicKey,
     OF assms(1,2)]
  have pos: "ensurePositionIx L connection marketId marketKey walletPublicKey walletPublicKey =
      \<lparr>pos_positionPda = fst (getPositionPDA L marketId walletPublicKey),
       pos_instruction = Some (MethodCall ''createPosition'' [Bytes marketId]
                [(''payer'', walletPublicKey), (''owner'', walletPublicKey),
                 (''market'', marketKey),
                 (''position'', fst (getPositionPDA L marketId walletPublicKey)),
                 (''systemProgram'', SystemProgram_programId L)])\<rparr>"
    using assms(4) by (simp add: ensurePositionIx_def Let_def)
  show ?thesis
    by (simp add: handleSupply_def ata pos assms(3) parse_100 parse_0 Let_def
        sendInstructions_unfold split: sum.split)
qed

lemma testConnection_position:
  "testConnection (fst (getPositionPDA testLibrary [7] (PublicKey [21]))) = None"
  by (simp add: testConnection_def testLibrary_def getPositionPDA_def PROGRAM_SEED_PREFIX_def
      POSITION_SEED_def Buffer_from_def)

theorem handleSupply_first_supply_witness:
  "snd (handleSupply testLibrary testConnection (\<lambda>tx. Inr ''signature'') (Some (PublicKey [21]))
          ''100.00'' testMarket [7] (PublicKey [30])) =
     [\<lparr>tx_instructions =
         [CreateAssociatedTokenAccount (PublicKey [21]) (PublicKey [255, 21, 1, 10])
            (PublicKey [21]) (PublicKey [10]) (PublicKey [1]) (PublicKey [3]),
          MethodCall ''createPosition'' [Bytes [7]]
            [(''payer'', PublicKey [21]), (''owner'', PublicKey [21]),
             (''market'', PublicKey [30]),
             (''position'', fst (getPositionPDA testLibrary [7] (PublicKey [21]))),
             (''systemProgram'', PublicKey [0])],
          MethodCall ''supply'' [Bytes [7], Amount 100000000, Amount 0]
            [(''supplier'', PublicKey [21]),
             (''protocolState'', fst (getProtocolStatePDA testLibrary)),
             (''market'', PublicKey [30]),
             (''position'', fst (getPositionPDA testLibrary [7] (PublicKey [21]))),
             (''onBehalfOf'', PublicKey [21]),
             (''supplierTokenAccount'', PublicKey [255, 21, 1, 10]),
             (''loanVault'', fst (getLoanVaultPDA testLibrary [7])),
             (''loanMint'', PublicKey [10]),
             (''tokenProgram'', PublicKey [1])]],
        tx_feePayer = Some (PublicKey [21])\<rparr>] \<and>
   map (\<lambda>ix. case ix of MethodCall name args accounts \<Rightarrow> name | _ \<Rightarrow> ''createAssociatedTokenAccount'')
     (concat (map tx_instructions
        (snd (handleSupply testLibrary testConnection (\<lambda>tx. Inr ''signature'')
                (Some (PublicKey [21])) ''100.00'' testMarket2022 [7] (PublicKey [30]))))) =
     [''createPosition'', ''supply'']"
proof -
  have m1: "testConnection (market_loanMint testMarket) =
              Some \<lparr>info_owner = PublicKey [1], info_data = []\<rparr>"
    and m2: "testConnection (market_loanMint testMarket2022) =
              Some \<lparr>info_owner = PublicKey [2], info_data = []\<rparr>"
    by (simp_all add: testConnection_def testMarket_def testMarket2022_def)
  have c: "isOnCurve testLibrary (PublicKey [21])" by (simp add: testLibrary_def)
  have d1: "market_loanDecimals testMarket = 6" and d2: "market_loanDecimals testMarket2022 = 6"
    by (simp_all add: testMarket_def testMarket2022_def)
  note a = handleSupply_first_supply
      [where sendAndConfirm = "\<lambda>tx. Inr ''signature''" and marketKey = "PublicKey [30]",
       OF m1 c d1 testConnection_position]
  note b = handleSupply_first_supply
      [where sendAndConfirm = "\<lambda>tx. Inr ''signature''" and marketKey = "PublicKey [30]",
       OF m2 c d2 testConnection_position]
  have ata1: "fst (findProgramAddressSync testLibrary
                [[21], [1], [10]]
                (PublicKey [3])) = PublicKey [255, 21, 1, 10]"
    and ata2: "fst (findProgramAddressSync testLibrary
                [[21], [2], [11]]
                (PublicKey [3])) = PublicKey [255, 21, 2, 11]"
    by (simp_all add: testLibrary_def)
  have ids: "TOKEN_PROGRAM_ID testLibrary = PublicKey [1]"
    "TOKEN_2022_PROGRAM_ID testLibrary = PublicKey [2]"
    "ASSOCIATED_TOKEN_PROGRAM_ID testLibrary = PublicKey [3]"
    "SystemProgram_programId testLibrary = PublicKey [0]"
    by (simp_all add: testLibrary_def)
  have e1: "testConnection (PublicKey [255, 21, 1, 10]) = None"
    and e2: "testConnection (PublicKey [255, 21, 2, 11]) \<noteq> None"
    by (simp_all add: testConnection_def)
  have mk: "market_loanMint testMarket = PublicKey [10]"
    "market_loanMint testMarket2022 = PublicKey [11]"
    by (simp_all add: testMarket_def testMarket2022_def)
  from a have a': "snd (handleSupply testLibrary testConnection (\<lambda>tx. Inr ''signature'')
          (Some (PublicKey [21])) ''100.00'' testMarket [7] (PublicKey [30])) =
     [\<lparr>tx_instructions =
         [CreateAssociatedTokenAccount (PublicKey [21]) (PublicKey [255, 21, 1, 10])
            (PublicKey [21]) (PublicKey [10]) (PublicKey [1]) (PublicKey [3]),
          MethodCall ''createPosition'' [Bytes [7]]
            [(''payer'', PublicKey [21]), (''owner'', PublicKey [21]),
             (''market'', PublicKey [30]),
             (''position'', fst (getPositionPDA testLibrary [7] (PublicKey [21]))),
             (''systemProgram'', PublicKey [0])],
          MethodCall ''supply'' [Bytes [7], Amount 100000000, Amount 0]
            [(''supplier'', PublicKey [21]),
             (''protocolState'', fst (getProtocolStatePDA testLibrary)),
             (''market'', PublicKey [30]),
             (''position'', fst (getPositionPDA testLibrary [7] (PublicKey [21]))),
             (''onBehalfOf'', PublicKey [21]),
             (''supplierTokenAccount'', PublicKey [255, 21, 1, 10]),
             (''loanVault'', fst (getLoanVaultPDA testLibrary [7])),
             (''loanMint'', PublicKey [10]),
             (''tokenProgram'', PublicKey [1])]],
        tx_feePayer = Some (PublicKey [21])\<rparr>]"
    by (simp add: Let_def ids mk ata1 e1)
  from b have b': "snd (handleSupply testLibrary testConnection (\<lambda>tx. Inr ''signature'')
                (Some (PublicKey [21])) ''100.00'' testMarket2022 [7] (PublicKey [30])) =
     [\<lparr>tx_instructions =
         [MethodCall ''createPosition'' [Bytes [7]]
            [(''payer'', PublicKey [21]), (''owner'', PublicKey [21]),
             (''market'', PublicKey [30]),
             (''position'', fst (getPositionPDA testLibrary [7] (PublicKey [21]))),
             (''systemProgram'', PublicKey [0])],
          MethodCall ''supply'' [Bytes [7], Amount 100000000, Amount 0]
            [(''supplier'', PublicKey [21]),
             (''protocolState'', fst (getProtocolStatePDA testLibrary)),
             (''market'', PublicKey [30]),
             (''position'', fst (getPositionPDA testLibrary [7] (PublicKey [21]))),
             (''onBehalfOf'', PublicKey [21]),
             (''supplierTokenAccount'', PublicKey [255, 21, 2, 11]),
             (''loanVault'', fst (getLoanVaultPDA testLibrary [7])),
             (''loanMint'', PublicKey [11]),
             (''tokenProgram'', PublicKey [2])]],
        tx_feePayer = Some (PublicKey [21])\<rparr>]"
    using e2 by (simp add: Let_def ids mk ata2)
  show ?thesis unfolding a' b' by simp
qed

end
